theory Spec2Isabelle
  imports Complex_Main "HOL-Library.AList"
begin

section \<open>Crowd Pong: the simulation and vote-aggregation core\<close>

text \<open>
  The repository holds two near-identical servers. \<^verbatim>\<open>src/server.js\<close> is the
  fixed-team game (players are split by the parity of their number, each team votes for
  its own paddle, the ball speeds up every round); \<^verbatim>\<open>src/unnamed/part_000\<close> is the
  ball-tracking game (every vote goes to both paddles, only the paddle on the ball's side
  moves from votes, the other one drifts to the centre). The two files differ in a few
  constants and in a few branches, so one embedding covers both, with the file chosen by a
  \<open>variant\<close> argument; every place where the files differ is a \<open>case\<close> on it.

  JavaScript numbers that hold positions and velocities are modelled as \<open>real\<close>
  (rounding of doubles is not modelled); vote tallies, scores and player numbers are
  \<open>int\<close>. \<^verbatim>\<open>Math.random()\<close> and \<^verbatim>\<open>Date.now()\<close> are arguments of the handler that calls
  them. Messages sent with \<^verbatim>\<open>io.emit\<close> are not part of the state and are left out.
\<close>

datatype variant = FixedTeam | BallTracking

subsection \<open>Game constants\<close>

definition WINNING_SCORE :: int where
  "WINNING_SCORE = 7"

definition INITIAL_BALL_SPEED :: "variant \<Rightarrow> real" where
  "INITIAL_BALL_SPEED v = (case v of FixedTeam \<Rightarrow> 5 | BallTracking \<Rightarrow> 3)"

definition SPEED_INCREMENT :: "variant \<Rightarrow> real" where
  "SPEED_INCREMENT v = (case v of FixedTeam \<Rightarrow> 0.5 | BallTracking \<Rightarrow> 0)"

definition PADDLE_SPEED :: "variant \<Rightarrow> real" where
  "PADDLE_SPEED v = (case v of FixedTeam \<Rightarrow> 8 | BallTracking \<Rightarrow> 6)"

definition CANVAS_WIDTH :: real where
  "CANVAS_WIDTH = 1200"

definition CANVAS_HEIGHT :: real where
  "CANVAS_HEIGHT = 600"

definition PADDLE_HEIGHT :: real where
  "PADDLE_HEIGHT = 120"

definition PADDLE_WIDTH :: real where
  "PADDLE_WIDTH = 15"

definition BALL_SIZE :: real where
  "BALL_SIZE = 15"

definition maxRecentInputs :: "variant \<Rightarrow> nat" where
  "maxRecentInputs v = (case v of FixedTeam \<Rightarrow> 20 | BallTracking \<Rightarrow> 30)"

subsection \<open>Game state\<close>

datatype status = Waiting | Playing | Paused | Finished

datatype side = Left | Right

text \<open>The fields \<^verbatim>\<open>x, y, vx, vy\<close> of the ball and \<^verbatim>\<open>y\<close> of a paddle carry a prefix
  here, since a record field is a constant and would capture the variable names.\<close>

record ball =
  ball_x :: real
  ball_y :: real
  ball_vx :: real
  ball_vy :: real

record paddle =
  paddle_y :: real
  upVotes :: int
  downVotes :: int

record score =
  left :: int
  right :: int

text \<open>A player record. \<open>lastInput\<close> is \<^verbatim>\<open>null\<close> (\<open>None\<close>) or the string the client
  sent; \<open>team\<close> exists in the fixed-team file only (\<open>None\<close> in the other).\<close>

record player =
  number :: int
  team :: "side option"
  lastInput :: "string option"
  inputTime :: "nat option"

record recentInput =
  ri_number :: int
  ri_direction :: string
  ri_team :: "side option"
  ri_timestamp :: nat

type_synonym socketId = nat

text \<open>\<open>players\<close> is the JavaScript \<^verbatim>\<open>Map\<close> from socket id to player, kept as an
  association list in insertion order. \<open>roundNo\<close> is the field \<^verbatim>\<open>round\<close> and
  \<open>activePaddle\<close> the field of that name; the first is used by the fixed-team file
  only, the second by the ball-tracking file only. \<open>pendingResets\<close> counts the
  callbacks handed to \<^verbatim>\<open>setTimeout\<close> that have not run yet: the code keeps no handle
  on them, and they are all the same closure, so their number is all there is to know.\<close>

record gameState =
  status :: status
  ball :: ball
  leftPaddle :: paddle
  rightPaddle :: paddle
  score :: score
  roundNo :: int
  ballSpeed :: real
  activePaddle :: side
  players :: "(socketId \<times> player) list"
  nextPlayerNumber :: int
  recentInputs :: "recentInput list"
  pendingResets :: nat

definition centerY :: real where
  "centerY = CANVAS_HEIGHT / 2 - PADDLE_HEIGHT / 2"

text \<open>The state the module starts with; \<open>r0\<close> is the one call of \<^verbatim>\<open>Math.random()\<close>
  in the initialiser.\<close>

definition initialState :: "variant \<Rightarrow> real \<Rightarrow> gameState" where
  "initialState v r0 =
     \<lparr> status = Waiting,
       ball = \<lparr> ball_x = CANVAS_WIDTH / 2, ball_y = CANVAS_HEIGHT / 2,
                ball_vx = INITIAL_BALL_SPEED v,
                ball_vy = INITIAL_BALL_SPEED v * (if r0 > 0.5 then 1 else -1) \<rparr>,
       leftPaddle = \<lparr> paddle_y = centerY, upVotes = 0, downVotes = 0 \<rparr>,
       rightPaddle = \<lparr> paddle_y = centerY, upVotes = 0, downVotes = 0 \<rparr>,
       score = \<lparr> left = 0, right = 0 \<rparr>,
       roundNo = 1,
       ballSpeed = INITIAL_BALL_SPEED v,
       activePaddle = Right,
       players = [],
       nextPlayerNumber = 1,
       recentInputs = [],
       pendingResets = 0 \<rparr>"

subsection \<open>Resets\<close>

text \<open>\<^verbatim>\<open>resetBall(direction)\<close>; \<open>r\<close> is its call of \<^verbatim>\<open>Math.random()\<close>.\<close>

definition resetBall :: "real \<Rightarrow> real \<Rightarrow> gameState \<Rightarrow> gameState" where
  "resetBall direction r s =
     s\<lparr> ball := \<lparr> ball_x = CANVAS_WIDTH / 2, ball_y = CANVAS_HEIGHT / 2,
                   ball_vx = ballSpeed s * direction,
                   ball_vy = ballSpeed s * (r * 2 - 1) \<rparr> \<rparr>"

definition lastScorer :: "gameState \<Rightarrow> real" where
  "lastScorer s = (if left (score s) > right (score s) then -1 else 1)"

definition resetRound :: "real \<Rightarrow> gameState \<Rightarrow> gameState" where
  "resetRound r s =
     resetBall (lastScorer s) r
       (s\<lparr> leftPaddle := \<lparr> paddle_y = centerY, upVotes = 0, downVotes = 0 \<rparr>,
           rightPaddle := \<lparr> paddle_y = centerY, upVotes = 0, downVotes = 0 \<rparr> \<rparr>)"

text \<open>\<^verbatim>\<open>resetGame()\<close>: \<open>r1\<close> is drawn inside \<^verbatim>\<open>resetRound\<close>, \<open>r2\<close> chooses the
  direction of the last \<^verbatim>\<open>resetBall\<close> and \<open>r3\<close> is drawn inside it. Only the
  fixed-team file has a round counter to reset.\<close>

definition resetGame :: "variant \<Rightarrow> real \<Rightarrow> real \<Rightarrow> real \<Rightarrow> gameState \<Rightarrow> gameState" where
  "resetGame v r1 r2 r3 s =
     resetBall (if r2 > 0.5 then 1 else -1) r3
       (resetRound r1
          (s\<lparr> status := Waiting,
              score := \<lparr> left = 0, right = 0 \<rparr>,
              roundNo := (case v of FixedTeam \<Rightarrow> 1 | BallTracking \<Rightarrow> roundNo s),
              ballSpeed := INITIAL_BALL_SPEED v,
              recentInputs := [] \<rparr>))"

subsection \<open>Paddle movement from votes\<close>

definition calculatePaddleMovement :: "variant \<Rightarrow> paddle \<Rightarrow> real" where
  "calculatePaddleMovement v p =
     (let totalVotes = upVotes p + downVotes p in
      if totalVotes = 0 then 0
      else
        let upRatio = real_of_int (upVotes p) / real_of_int totalVotes;
            downRatio = real_of_int (downVotes p) / real_of_int totalVotes
        in if upRatio > downRatio then - PADDLE_SPEED v * (upRatio - 0.5) * 2
           else if downRatio > upRatio then PADDLE_SPEED v * (downRatio - 0.5) * 2
           else 0)"

subsection \<open>One tick of the game loop\<close>

text \<open>The body of the interval callback, cut into its steps in the order of the code.\<close>

definition movePaddles :: "variant \<Rightarrow> gameState \<Rightarrow> gameState" where
  "movePaddles v s =
     (case v of
        FixedTeam \<Rightarrow>
          s\<lparr> leftPaddle := (leftPaddle s)\<lparr> paddle_y :=
                paddle_y (leftPaddle s) + calculatePaddleMovement v (leftPaddle s) \<rparr>,
             rightPaddle := (rightPaddle s)\<lparr> paddle_y :=
                paddle_y (rightPaddle s) + calculatePaddleMovement v (rightPaddle s) \<rparr> \<rparr>
      | BallTracking \<Rightarrow>
          (if ball_x (ball s) < CANVAS_WIDTH / 2
           then s\<lparr> activePaddle := Left,
                   leftPaddle := (leftPaddle s)\<lparr> paddle_y :=
                     paddle_y (leftPaddle s) + calculatePaddleMovement v (leftPaddle s) \<rparr>,
                   rightPaddle := (rightPaddle s)\<lparr> paddle_y :=
                     paddle_y (rightPaddle s) + (centerY - paddle_y (rightPaddle s)) * 0.02 \<rparr> \<rparr>
           else s\<lparr> activePaddle := Right,
                   rightPaddle := (rightPaddle s)\<lparr> paddle_y :=
                     paddle_y (rightPaddle s) + calculatePaddleMovement v (rightPaddle s) \<rparr>,
                   leftPaddle := (leftPaddle s)\<lparr> paddle_y :=
                     paddle_y (leftPaddle s) + (centerY - paddle_y (leftPaddle s)) * 0.02 \<rparr> \<rparr>))"

definition clampPaddle :: "paddle \<Rightarrow> paddle" where
  "clampPaddle p = p\<lparr> paddle_y := max 0 (min (CANVAS_HEIGHT - PADDLE_HEIGHT) (paddle_y p)) \<rparr>"

definition clampPaddles :: "gameState \<Rightarrow> gameState" where
  "clampPaddles s =
     s\<lparr> leftPaddle := clampPaddle (leftPaddle s), rightPaddle := clampPaddle (rightPaddle s) \<rparr>"

definition moveBall :: "gameState \<Rightarrow> gameState" where
  "moveBall s =
     s\<lparr> ball := (ball s)\<lparr> ball_x := ball_x (ball s) + ball_vx (ball s),
                           ball_y := ball_y (ball s) + ball_vy (ball s) \<rparr> \<rparr>"

definition wallCollision :: "gameState \<Rightarrow> gameState" where
  "wallCollision s =
     (if ball_y (ball s) \<le> 0 \<or> ball_y (ball s) \<ge> CANVAS_HEIGHT - BALL_SIZE
      then s\<lparr> ball := (ball s)\<lparr> ball_vy := ball_vy (ball s) * (-1),
                                 ball_y := max 0 (min (CANVAS_HEIGHT - BALL_SIZE) (ball_y (ball s))) \<rparr> \<rparr>
      else s)"

definition leftPaddleCollision :: "gameState \<Rightarrow> gameState" where
  "leftPaddleCollision s =
     (if ball_x (ball s) \<le> PADDLE_WIDTH + 20 \<and>
         ball_y (ball s) + BALL_SIZE \<ge> paddle_y (leftPaddle s) \<and>
         ball_y (ball s) \<le> paddle_y (leftPaddle s) + PADDLE_HEIGHT \<and>
         ball_vx (ball s) < 0
      then s\<lparr> ball := (ball s)\<lparr> ball_vx := ball_vx (ball s) * (-1),
                 ball_vy := ((ball_y (ball s) - paddle_y (leftPaddle s)) / PADDLE_HEIGHT - 0.5)
                              * ballSpeed s * 2 \<rparr> \<rparr>
      else s)"

definition rightPaddleCollision :: "gameState \<Rightarrow> gameState" where
  "rightPaddleCollision s =
     (if ball_x (ball s) \<ge> CANVAS_WIDTH - PADDLE_WIDTH - 20 - BALL_SIZE \<and>
         ball_y (ball s) + BALL_SIZE \<ge> paddle_y (rightPaddle s) \<and>
         ball_y (ball s) \<le> paddle_y (rightPaddle s) + PADDLE_HEIGHT \<and>
         ball_vx (ball s) > 0
      then s\<lparr> ball := (ball s)\<lparr> ball_vx := ball_vx (ball s) * (-1),
                 ball_vy := ((ball_y (ball s) - paddle_y (rightPaddle s)) / PADDLE_HEIGHT - 0.5)
                              * ballSpeed s * 2 \<rparr> \<rparr>
      else s)"

text \<open>What follows \<^verbatim>\<open>if (scored)\<close>: the fixed-team file first advances the round and
  the ball speed; then either the match ends or one more round reset is handed to
  \<^verbatim>\<open>setTimeout\<close>.\<close>

definition afterScore :: "variant \<Rightarrow> gameState \<Rightarrow> gameState" where
  "afterScore v s =
     (let s1 = (case v of
                  FixedTeam \<Rightarrow>
                    s\<lparr> roundNo := roundNo s + 1,
                       ballSpeed := INITIAL_BALL_SPEED v
                                      + (real_of_int (roundNo s + 1) - 1) * SPEED_INCREMENT v \<rparr>
                | BallTracking \<Rightarrow> s)
      in if left (score s1) \<ge> WINNING_SCORE \<or> right (score s1) \<ge> WINNING_SCORE
         then s1\<lparr> status := Finished \<rparr>
         else s1\<lparr> pendingResets := pendingResets s1 + 1 \<rparr>)"

definition scoreDetection :: "variant \<Rightarrow> gameState \<Rightarrow> gameState" where
  "scoreDetection v s =
     (if ball_x (ball s) \<le> 0
      then afterScore v (s\<lparr> score := (score s)\<lparr> right := right (score s) + 1 \<rparr> \<rparr>)
      else if ball_x (ball s) \<ge> CANVAS_WIDTH
      then afterScore v (s\<lparr> score := (score s)\<lparr> left := left (score s) + 1 \<rparr> \<rparr>)
      else s)"

definition tick :: "variant \<Rightarrow> gameState \<Rightarrow> gameState" where
  "tick v s =
     (if status s \<noteq> Playing then s
      else scoreDetection v
             (rightPaddleCollision
                (leftPaddleCollision
                   (wallCollision
                      (moveBall
                         (clampPaddles
                            (movePaddles v s)))))))"

subsection \<open>The vote ledger: socket handlers of the players\<close>

text \<open>\<^verbatim>\<open>player:join\<close>. The fixed-team file puts even numbers on the left team and odd
  numbers on the right team. \<^verbatim>\<open>Map.set\<close> replaces the record of a socket that
  joins again.\<close>

definition playerJoin :: "variant \<Rightarrow> socketId \<Rightarrow> gameState \<Rightarrow> gameState" where
  "playerJoin v k s =
     (let playerNumber = nextPlayerNumber s;
          tm = (case v of
                  FixedTeam \<Rightarrow> Some (if playerNumber mod 2 = 0 then Left else Right)
                | BallTracking \<Rightarrow> None)
      in s\<lparr> nextPlayerNumber := playerNumber + 1,
            players := AList.update k
              \<lparr> number = playerNumber, team = tm, lastInput = None, inputTime = None \<rparr>
              (players s) \<rparr>)"

text \<open>The two groups of statements that every handler repeats: taking back the vote a
  player held, and adding the new one. Both compare the direction with the strings
  \<^verbatim>\<open>'up'\<close> and \<^verbatim>\<open>'down'\<close> and do nothing for any other value.\<close>

definition removeVote :: "string option \<Rightarrow> paddle \<Rightarrow> paddle" where
  "removeVote prevInput p =
     (let p1 = (if prevInput = Some ''up'' then p\<lparr> upVotes := max 0 (upVotes p - 1) \<rparr> else p)
      in if prevInput = Some ''down'' then p1\<lparr> downVotes := max 0 (downVotes p1 - 1) \<rparr> else p1)"

definition addVote :: "string \<Rightarrow> paddle \<Rightarrow> paddle" where
  "addVote direction p =
     (let p1 = (if direction = ''up'' then p\<lparr> upVotes := upVotes p + 1 \<rparr> else p)
      in if direction = ''down'' then p1\<lparr> downVotes := downVotes p1 + 1 \<rparr> else p1)"

text \<open>The paddle a handler works on: in the fixed-team file
  \<^verbatim>\<open>player.team === 'left' ? gameState.leftPaddle : gameState.rightPaddle\<close>, in the
  ball-tracking file both paddles, each with the same statements.\<close>

definition onVotedPaddles ::
    "variant \<Rightarrow> player \<Rightarrow> (paddle \<Rightarrow> paddle) \<Rightarrow> gameState \<Rightarrow> gameState" where
  "onVotedPaddles v pl f s =
     (case v of
        FixedTeam \<Rightarrow>
          (if team pl = Some Left then s\<lparr> leftPaddle := f (leftPaddle s) \<rparr>
           else s\<lparr> rightPaddle := f (rightPaddle s) \<rparr>)
      | BallTracking \<Rightarrow>
          s\<lparr> leftPaddle := f (leftPaddle s), rightPaddle := f (rightPaddle s) \<rparr>)"

definition pushRecent :: "variant \<Rightarrow> recentInput \<Rightarrow> recentInput list \<Rightarrow> recentInput list" where
  "pushRecent v e entries =
     (let entries1 = e # entries
      in if length entries1 > maxRecentInputs v then butlast entries1 else entries1)"

text \<open>\<^verbatim>\<open>player:input\<close> with \<^verbatim>\<open>data.direction = direction\<close>; \<open>t1\<close> and \<open>t2\<close> are
  its two readings of \<^verbatim>\<open>Date.now()\<close>.\<close>

definition playerInput ::
    "variant \<Rightarrow> socketId \<Rightarrow> string \<Rightarrow> nat \<Rightarrow> nat \<Rightarrow> gameState \<Rightarrow> gameState" where
  "playerInput v k direction t1 t2 s =
     (case map_of (players s) k of
        None \<Rightarrow> s
      | Some pl \<Rightarrow>
          (let prevInput = lastInput pl;
               pl1 = pl\<lparr> lastInput := Some direction, inputTime := Some t1 \<rparr>;
               s1 = s\<lparr> players := AList.update k pl1 (players s) \<rparr>;
               s2 = onVotedPaddles v pl1 (\<lambda>p. addVote direction (removeVote prevInput p)) s1
           in s2\<lparr> recentInputs := pushRecent v
                    \<lparr> ri_number = number pl1, ri_direction = direction,
                      ri_team = team pl1, ri_timestamp = t2 \<rparr>
                    (recentInputs s2) \<rparr>))"

text \<open>\<^verbatim>\<open>player:release\<close>. The test \<^verbatim>\<open>!player.lastInput\<close> holds for \<^verbatim>\<open>null\<close> and for
  the empty string.\<close>

definition playerRelease :: "variant \<Rightarrow> socketId \<Rightarrow> gameState \<Rightarrow> gameState" where
  "playerRelease v k s =
     (case map_of (players s) k of
        None \<Rightarrow> s
      | Some pl \<Rightarrow>
          (if lastInput pl = None \<or> lastInput pl = Some [] then s
           else
             (let s1 = onVotedPaddles v pl (removeVote (lastInput pl)) s
              in s1\<lparr> players := AList.update k (pl\<lparr> lastInput := None \<rparr>) (players s1) \<rparr>)))"

text \<open>\<^verbatim>\<open>disconnect\<close>.\<close>

definition disconnect :: "variant \<Rightarrow> socketId \<Rightarrow> gameState \<Rightarrow> gameState" where
  "disconnect v k s =
     (case map_of (players s) k of
        None \<Rightarrow> s
      | Some pl \<Rightarrow>
          (let s1 = onVotedPaddles v pl (removeVote (lastInput pl)) s
           in s1\<lparr> players := AList.delete k (players s1) \<rparr>))"

subsection \<open>Admin commands and the deferred round reset\<close>

definition adminStart :: "variant \<Rightarrow> real \<Rightarrow> real \<Rightarrow> real \<Rightarrow> gameState \<Rightarrow> gameState" where
  "adminStart v r1 r2 r3 s =
     (if status s = Waiting \<or> status s = Finished
      then (resetGame v r1 r2 r3 s)\<lparr> status := Playing \<rparr>
      else s)"

definition adminPause :: "gameState \<Rightarrow> gameState" where
  "adminPause s = (if status s = Playing then s\<lparr> status := Paused \<rparr> else s)"

definition adminResume :: "gameState \<Rightarrow> gameState" where
  "adminResume s = (if status s = Paused then s\<lparr> status := Playing \<rparr> else s)"

definition adminReset :: "variant \<Rightarrow> real \<Rightarrow> real \<Rightarrow> real \<Rightarrow> gameState \<Rightarrow> gameState" where
  "adminReset v r1 r2 r3 s = resetGame v r1 r2 r3 s"

definition adminResetPlayers :: "gameState \<Rightarrow> gameState" where
  "adminResetPlayers s =
     s\<lparr> players := [],
        nextPlayerNumber := 1,
        leftPaddle := (leftPaddle s)\<lparr> upVotes := 0, downVotes := 0 \<rparr>,
        rightPaddle := (rightPaddle s)\<lparr> upVotes := 0, downVotes := 0 \<rparr>,
        recentInputs := [] \<rparr>"

text \<open>The callback of \<^verbatim>\<open>setTimeout(..., 1500)\<close> runs: one pending reset is used up
  and \<^verbatim>\<open>resetRound()\<close> is called, whatever the status is by then. With nothing
  pending there is no callback to run.\<close>

definition timerFire :: "real \<Rightarrow> gameState \<Rightarrow> gameState" where
  "timerFire r s =
     (if pendingResets s = 0 then s
      else resetRound r (s\<lparr> pendingResets := pendingResets s - 1 \<rparr>))"

subsection \<open>Events\<close>

text \<open>Everything runs on one thread, so a run of the server is a sequence of handler
  calls: ticks of the interval, firings of pending timeouts, socket messages. How the
  clock orders them is not modelled: a pending timeout may fire at any later point. (By the
  clock, ninety ticks come between a goal and the firing of its timeout.) A tick before
  the first admin start, when no interval exists yet, is the tick that does nothing.\<close>

datatype event =
    Tick
  | TimerFire real
  | PlayerJoin socketId
  | PlayerInput socketId string nat nat
  | PlayerRelease socketId
  | Disconnect socketId
  | AdminStart real real real
  | AdminPause
  | AdminResume
  | AdminReset real real real
  | AdminResetPlayers

fun step :: "variant \<Rightarrow> gameState \<Rightarrow> event \<Rightarrow> gameState" where
  "step v s Tick = tick v s"
| "step v s (TimerFire r) = timerFire r s"
| "step v s (PlayerJoin k) = playerJoin v k s"
| "step v s (PlayerInput k d t1 t2) = playerInput v k d t1 t2 s"
| "step v s (PlayerRelease k) = playerRelease v k s"
| "step v s (Disconnect k) = disconnect v k s"
| "step v s (AdminStart r1 r2 r3) = adminStart v r1 r2 r3 s"
| "step v s AdminPause = adminPause s"
| "step v s AdminResume = adminResume s"
| "step v s (AdminReset r1 r2 r3) = adminReset v r1 r2 r3 s"
| "step v s AdminResetPlayers = adminResetPlayers s"

fun run :: "variant \<Rightarrow> gameState \<Rightarrow> event list \<Rightarrow> gameState" where
  "run v s [] = s"
| "run v s (e # es) = run v (step v s e) es"

section \<open>Notions used in the statements\<close>

text \<open>Whether the vote of a player goes to the paddle of side \<open>sd\<close>: in the fixed-team
  file the handlers pick the left paddle for a player of the left team and the right
  paddle for everybody else; in the ball-tracking file every vote goes to both paddles.
  \<open>holders\<close> counts the present players who hold a given direction for a paddle,
  \<open>voters\<close> those who hold up or down.\<close>

definition contributes :: "variant \<Rightarrow> side \<Rightarrow> player \<Rightarrow> bool" where
  "contributes v sd pl =
     (case v of
        FixedTeam \<Rightarrow> (if team pl = Some Left then sd = Left else sd = Right)
      | BallTracking \<Rightarrow> True)"

definition holders :: "variant \<Rightarrow> side \<Rightarrow> string \<Rightarrow> (socketId \<times> player) list \<Rightarrow> nat" where
  "holders v sd d ps =
     length (filter (\<lambda>kp. lastInput (snd kp) = Some d \<and> contributes v sd (snd kp)) ps)"

definition voters :: "variant \<Rightarrow> side \<Rightarrow> (socketId \<times> player) list \<Rightarrow> nat" where
  "voters v sd ps =
     length (filter (\<lambda>kp. (lastInput (snd kp) = Some ''up'' \<or> lastInput (snd kp) = Some ''down'')
                            \<and> contributes v sd (snd kp)) ps)"

definition paddleOf :: "side \<Rightarrow> gameState \<Rightarrow> paddle" where
  "paddleOf sd s = (case sd of Left \<Rightarrow> leftPaddle s | Right \<Rightarrow> rightPaddle s)"

definition ledgerInv :: "variant \<Rightarrow> gameState \<Rightarrow> bool" where
  "ledgerInv v s =
     (distinct (map fst (players s)) \<and>
      (\<forall>sd. upVotes (paddleOf sd s) = int (holders v sd ''up'' (players s)) \<and>
            downVotes (paddleOf sd s) = int (holders v sd ''down'' (players s))))"

text \<open>\<open>ledgerCalls\<close> are the runs made of the calls of the vote ledger only: a join of
  a socket that is not present, an input of up or down, a release, a disconnect.\<close>

fun ledgerCall :: "gameState \<Rightarrow> event \<Rightarrow> bool" where
  "ledgerCall s (PlayerJoin k) = (map_of (players s) k = None)"
| "ledgerCall s (PlayerInput k d t1 t2) = (d = ''up'' \<or> d = ''down'')"
| "ledgerCall s (PlayerRelease k) = True"
| "ledgerCall s (Disconnect k) = True"
| "ledgerCall s _ = False"

fun ledgerCalls :: "variant \<Rightarrow> gameState \<Rightarrow> event list \<Rightarrow> bool" where
  "ledgerCalls v s [] = True"
| "ledgerCalls v s (e # es) = (ledgerCall s e \<and> ledgerCalls v (step v s e) es)"

definition talliesNonneg :: "gameState \<Rightarrow> bool" where
  "talliesNonneg s =
     (0 \<le> upVotes (leftPaddle s) \<and> 0 \<le> downVotes (leftPaddle s) \<and>
      0 \<le> upVotes (rightPaddle s) \<and> 0 \<le> downVotes (rightPaddle s))"

text \<open>The state just before the score detection of a tick.\<close>

definition beforeScore :: "variant \<Rightarrow> gameState \<Rightarrow> gameState" where
  "beforeScore v s =
     rightPaddleCollision (leftPaddleCollision (wallCollision (moveBall (clampPaddles (movePaddles v s)))))"

text \<open>Every event but the two admin commands that reset the match.\<close>

fun notStartOrReset :: "event \<Rightarrow> bool" where
  "notStartOrReset (AdminStart r1 r2 r3) = False"
| "notStartOrReset (AdminReset r1 r2 r3) = False"
| "notStartOrReset e = True"

text \<open>\<open>frozenAt s s'\<close>: the match is over in \<open>s'\<close> with nothing pending, and ball and
  paddle positions are those of \<open>s\<close>.\<close>

definition frozenAt :: "gameState \<Rightarrow> gameState \<Rightarrow> bool" where
  "frozenAt s s' =
     (status s' = Finished \<and> pendingResets s' = 0 \<and> ball s' = ball s \<and>
      paddle_y (leftPaddle s') = paddle_y (leftPaddle s) \<and>
      paddle_y (rightPaddle s') = paddle_y (rightPaddle s))"

text \<open>Whether a tick moves the paddle of side \<open>sd\<close> from its votes, that is, adds
  \<^verbatim>\<open>calculatePaddleMovement\<close> to its position: the fixed-team file does so for both
  paddles on every tick; the ball-tracking file does so for the active paddle only, the one
  on the side of the ball (left when the ball is left of the middle, else right), and
  moves the other one toward the centre instead.\<close>

definition movedFromVotes :: "variant \<Rightarrow> side \<Rightarrow> gameState \<Rightarrow> bool" where
  "movedFromVotes v sd s =
     (case v of
        FixedTeam \<Rightarrow> True
      | BallTracking \<Rightarrow> sd = (if ball_x (ball s) < CANVAS_WIDTH / 2 then Left else Right))"

text \<open>What holds in every state the server can reach: tallies are not negative, the ball
  speed is positive, the round counter is at least 1 and both paddles are within the range
  the clamp of a tick keeps them in.\<close>

definition inRange :: "paddle \<Rightarrow> bool" where
  "inRange p = (0 \<le> paddle_y p \<and> paddle_y p \<le> CANVAS_HEIGHT - PADDLE_HEIGHT)"

definition stateInv :: "gameState \<Rightarrow> bool" where
  "stateInv s =
     (talliesNonneg s \<and> 0 < ballSpeed s \<and> 1 \<le> roundNo s \<and>
      inRange (leftPaddle s) \<and> inRange (rightPaddle s))"

subsection \<open>Concrete runs for the examples\<close>

text \<open>All examples are runs of the server from its initial state. The ledger example:
  three sockets join the fixed-team game and vote, release and leave.\<close>

definition ledgerRun :: "event list" where
  "ledgerRun =
     [PlayerJoin 10, PlayerJoin 11, PlayerJoin 12,
      PlayerInput 10 ''up'' 1 1, PlayerInput 11 ''down'' 2 2, PlayerInput 12 ''up'' 3 3,
      PlayerInput 10 ''down'' 4 4, PlayerRelease 11, Disconnect 12, PlayerInput 12 ''up'' 5 5]"

text \<open>One player, socket 10, has joined the fixed-team game.\<close>

definition onePlayer :: gameState where
  "onePlayer = playerJoin FixedTeam 10 (initialState FixedTeam 0.75)"

text \<open>Socket 10 has joined the fixed-team game and holds up.\<close>

definition holdingUp :: gameState where
  "holdingUp = playerInput FixedTeam 10 ''up'' 1 2 onePlayer"

text \<open>The kick-off used by the examples about goals: the admin starts the fixed-team
  match, the ball is served to the right with \<open>vy = 2.5\<close>, and after 119 ticks, one
  bounce off the bottom wall at tick 114 and no votes, it is five pixels from the right edge,
  below the right paddle. The next tick is the first goal of the left side.\<close>

definition kickoff :: "event list" where
  "kickoff = AdminStart 0.5 0.75 0.75 # replicate 119 Tick"

definition beforeGoal :: gameState where
  "beforeGoal = run FixedTeam (initialState FixedTeam 0.75) kickoff"

text \<open>The rest of a match that ends with nothing pending: the left side scores on six
  ticks in a row and the admin pauses the match; during the pause the six pending resets
  fire and a player of the right team joins and holds up; after the resume the ball, served
  to the left, comes back off the left paddle, passes the right paddle (which the vote has
  moved to the top) and the left side scores its seventh goal.\<close>

definition fullMatch :: "event list" where
  "fullMatch =
     replicate 6 Tick @ [AdminPause] @ replicate 6 (TimerFire 0.5) @
     [PlayerJoin 10, PlayerInput 10 ''up'' 1 2, AdminResume] @ replicate 217 Tick"

definition matchOver :: gameState where
  "matchOver = run FixedTeam beforeGoal fullMatch"

text \<open>Events after the end of that match, none of them an admin start or reset.\<close>

definition afterFinish :: "event list" where
  "afterFinish =
     [Tick, PlayerInput 10 ''down'' 3 4, Tick, AdminPause, AdminResume, PlayerJoin 11,
      PlayerRelease 10, Tick, Disconnect 11, AdminResetPlayers, Tick]"

text \<open>Paddles off centre. In \<open>idleRun\<close> the admin starts the match, a player (of the
  right team in the fixed-team game) joins, holds up for one tick and releases: the right
  paddle is off centre and without votes. In \<open>easingRun\<close> the ball is served to the
  left and the player keeps holding up: after the first tick the ball is left of the
  middle, so in the ball-tracking game the left paddle is the active one and the right
  paddle, at 234 with one up vote, is not moved from votes.\<close>


definition idleRun :: "event list" where
  "idleRun =
     [AdminStart 0.5 0.75 0.75, PlayerJoin 10, PlayerInput 10 ''up'' 1 2, Tick, PlayerRelease 10]"

definition easingRun :: "event list" where
  "easingRun = [AdminStart 0.5 0.25 0.75, PlayerJoin 10, PlayerInput 10 ''up'' 1 2, Tick]"

text \<open>A vote held across a round reset: three sockets join during play (10 and 12 on the
  right team), socket 10 holds up, the next tick is a goal, the admin pauses the match, the
  pending round reset fires, and socket 12 votes up.\<close>

definition staleVoteRun :: "event list" where
  "staleVoteRun =
     [PlayerJoin 10, PlayerJoin 11, PlayerJoin 12, PlayerInput 10 ''up'' 1 2, Tick, AdminPause,
      TimerFire 0.5, PlayerInput 12 ''up'' 3 4]"

section \<open>Auxiliary facts\<close>

subsection \<open>Definitions to unfold when a concrete run is evaluated\<close>

lemmas ledger_eval =
  initialState_def playerJoin_def playerInput_def playerRelease_def disconnect_def
  onVotedPaddles_def addVote_def removeVote_def pushRecent_def maxRecentInputs_def
  paddleOf_def voters_def holders_def contributes_def Let_def

lemmas const_eval =
  WINNING_SCORE_def INITIAL_BALL_SPEED_def SPEED_INCREMENT_def PADDLE_SPEED_def
  CANVAS_WIDTH_def CANVAS_HEIGHT_def PADDLE_HEIGHT_def PADDLE_WIDTH_def BALL_SIZE_def
  centerY_def

lemmas tick_eval =
  tick_def movePaddles_def clampPaddles_def clampPaddle_def moveBall_def wallCollision_def
  leftPaddleCollision_def rightPaddleCollision_def scoreDetection_def afterScore_def
  calculatePaddleMovement_def Let_def

lemmas admin_eval =
  adminStart_def adminReset_def adminPause_def adminResume_def adminResetPlayers_def
  resetGame_def resetRound_def resetBall_def lastScorer_def timerFire_def

subsection \<open>Counting entries of the player map\<close>

lemma count_update_absent:
  "map_of ps k = None \<Longrightarrow>
     length (filter Q (AList.update k x ps)) = length (filter Q ps) + (if Q (k, x) then 1 else 0)"
  by (induction ps) (auto split: if_splits)

lemma count_update_present:
  "map_of ps k = Some pl \<Longrightarrow>
     length (filter Q (AList.update k x ps)) + (if Q (k, pl) then 1 else 0)
       = length (filter Q ps) + (if Q (k, x) then 1 else 0)"
  by (induction ps) (auto split: if_splits)

lemma count_delete_absent:
  "k \<notin> fst ` set ps \<Longrightarrow> length (filter Q (AList.delete k ps)) = length (filter Q ps)"
  by (induction ps) (auto simp add: AList.delete_eq)

lemma count_delete_present:
  "distinct (map fst ps) \<Longrightarrow> map_of ps k = Some pl \<Longrightarrow>
     length (filter Q (AList.delete k ps)) + (if Q (k, pl) then 1 else 0) = length (filter Q ps)"
proof (induction ps)
  case Nil
  then show ?case by simp
next
  case (Cons a ps)
  show ?case
  proof (cases "fst a = k")
    case True
    then have "k \<notin> fst ` set ps" using Cons.prems(1) by auto
    then have "length (filter Q (AList.delete k ps)) = length (filter Q ps)"
      by (rule count_delete_absent)
    moreover have "a = (k, pl)" using True Cons.prems(2) by (cases a) simp
    ultimately show ?thesis by (simp add: AList.delete_eq)
  next
    case False
    then have "map_of ps k = Some pl" using Cons.prems(2) by (cases a) (simp split: if_splits)
    moreover have "distinct (map fst ps)" using Cons.prems(1) by simp
    ultimately have "distinct (map fst ps)" and "map_of ps k = Some pl" by simp_all
    then have "length (filter Q (AList.delete k ps)) + (if Q (k, pl) then 1 else 0)
        = length (filter Q ps)" by (rule Cons.IH)
    then show ?thesis using False by (cases a) (simp add: AList.delete_eq)
  qed
qed

lemma count_present_pos:
  "map_of ps k = Some pl \<Longrightarrow> Q (k, pl) \<Longrightarrow> 0 < length (filter Q ps)"
  by (induction ps) (auto split: if_splits)

lemma holders_update_absent:
  "map_of ps k = None \<Longrightarrow>
     holders v sd d (AList.update k x ps)
       = holders v sd d ps + (if lastInput x = Some d \<and> contributes v sd x then 1 else 0)"
  unfolding holders_def by (simp add: count_update_absent)

lemma holders_update_present:
  "map_of ps k = Some pl \<Longrightarrow>
     int (holders v sd d (AList.update k x ps))
       = int (holders v sd d ps)
         - (if lastInput pl = Some d \<and> contributes v sd pl then 1 else 0)
         + (if lastInput x = Some d \<and> contributes v sd x then 1 else 0)"
  unfolding holders_def
  using count_update_present
    [of ps k pl "\<lambda>kp. lastInput (snd kp) = Some d \<and> contributes v sd (snd kp)" x]
  by (simp split: if_splits)

lemma holders_delete_present:
  "distinct (map fst ps) \<Longrightarrow> map_of ps k = Some pl \<Longrightarrow>
     int (holders v sd d (AList.delete k ps))
       = int (holders v sd d ps) - (if lastInput pl = Some d \<and> contributes v sd pl then 1 else 0)"
  unfolding holders_def
  using count_delete_present
    [of ps k pl "\<lambda>kp. lastInput (snd kp) = Some d \<and> contributes v sd (snd kp)"]
  by (simp split: if_splits)

lemma holders_present_pos:
  "map_of ps k = Some pl \<Longrightarrow> lastInput pl = Some d \<Longrightarrow> contributes v sd pl \<Longrightarrow>
     0 < holders v sd d ps"
  unfolding holders_def
  using count_present_pos
    [of ps k pl "\<lambda>kp. lastInput (snd kp) = Some d \<and> contributes v sd (snd kp)"]
  by simp

lemma voters_holders:
  "voters v sd ps = holders v sd ''up'' ps + holders v sd ''down'' ps"
  unfolding voters_def holders_def by (induction ps) auto

subsection \<open>What the handlers do to a paddle and to the player map\<close>

lemma playerInput_present:
  assumes "map_of (players s) k = Some pl"
  shows "paddleOf sd (playerInput v k d t1 t2 s) =
           (if contributes v sd pl then addVote d (removeVote (lastInput pl) (paddleOf sd s))
            else paddleOf sd s)"
    and "players (playerInput v k d t1 t2 s) =
           AList.update k (pl\<lparr> lastInput := Some d, inputTime := Some t1 \<rparr>) (players s)"
proof -
  show "paddleOf sd (playerInput v k d t1 t2 s) =
           (if contributes v sd pl then addVote d (removeVote (lastInput pl) (paddleOf sd s))
            else paddleOf sd s)"
    using assms
    by (cases v; cases sd)
       (simp_all add: playerInput_def Let_def onVotedPaddles_def paddleOf_def contributes_def)
  show "players (playerInput v k d t1 t2 s) =
           AList.update k (pl\<lparr> lastInput := Some d, inputTime := Some t1 \<rparr>) (players s)"
    using assms
    by (cases v) (simp_all add: playerInput_def Let_def onVotedPaddles_def)
qed

lemma playerRelease_present:
  assumes "map_of (players s) k = Some pl"
    and "lastInput pl \<noteq> None" and "lastInput pl \<noteq> Some []"
  shows "paddleOf sd (playerRelease v k s) =
           (if contributes v sd pl then removeVote (lastInput pl) (paddleOf sd s)
            else paddleOf sd s)"
    and "players (playerRelease v k s) = AList.update k (pl\<lparr> lastInput := None \<rparr>) (players s)"
proof -
  show "paddleOf sd (playerRelease v k s) =
           (if contributes v sd pl then removeVote (lastInput pl) (paddleOf sd s)
            else paddleOf sd s)"
    using assms
    by (cases v; cases sd)
       (auto simp add: playerRelease_def Let_def onVotedPaddles_def paddleOf_def contributes_def)
  show "players (playerRelease v k s) = AList.update k (pl\<lparr> lastInput := None \<rparr>) (players s)"
    using assms
    by (cases v) (auto simp add: playerRelease_def Let_def onVotedPaddles_def)
qed

lemma playerRelease_idle:
  "map_of (players s) k = None \<Longrightarrow> playerRelease v k s = s"
  "map_of (players s) k = Some pl \<Longrightarrow> lastInput pl = None \<or> lastInput pl = Some [] \<Longrightarrow>
     playerRelease v k s = s"
  by (auto simp add: playerRelease_def)

lemma disconnect_present:
  assumes "map_of (players s) k = Some pl"
  shows "paddleOf sd (disconnect v k s) =
           (if contributes v sd pl then removeVote (lastInput pl) (paddleOf sd s)
            else paddleOf sd s)"
    and "players (disconnect v k s) = AList.delete k (players s)"
proof -
  show "paddleOf sd (disconnect v k s) =
           (if contributes v sd pl then removeVote (lastInput pl) (paddleOf sd s)
            else paddleOf sd s)"
    using assms
    by (cases v; cases sd)
       (simp_all add: disconnect_def Let_def onVotedPaddles_def paddleOf_def contributes_def)
  show "players (disconnect v k s) = AList.delete k (players s)"
    using assms
    by (cases v) (simp_all add: disconnect_def Let_def onVotedPaddles_def)
qed

lemma disconnect_absent:
  "map_of (players s) k = None \<Longrightarrow> disconnect v k s = s"
  by (simp add: disconnect_def)

lemma playerJoin_paddleOf:
  "paddleOf sd (playerJoin v k s) = paddleOf sd s"
  by (cases sd) (simp_all add: playerJoin_def Let_def paddleOf_def)

lemma playerJoin_players:
  "\<exists>pl. lastInput pl = None \<and> players (playerJoin v k s) = AList.update k pl (players s)"
proof -
  let ?pl = "\<lparr> number = nextPlayerNumber s,
              team = (case v of
                        FixedTeam \<Rightarrow> Some (if nextPlayerNumber s mod 2 = 0 then Left else Right)
                      | BallTracking \<Rightarrow> None),
              lastInput = None, inputTime = None \<rparr>"
  have "lastInput ?pl = None \<and> players (playerJoin v k s) = AList.update k ?pl (players s)"
    by (simp add: playerJoin_def Let_def)
  then show ?thesis by blast
qed

lemma contributes_lastInput [simp]:
  "contributes v sd (pl\<lparr> lastInput := x, inputTime := y \<rparr>) = contributes v sd pl"
  "contributes v sd (pl\<lparr> lastInput := x \<rparr>) = contributes v sd pl"
  by (simp_all add: contributes_def)

lemma tallies_removeVote:
  "upVotes (removeVote prev p) = (if prev = Some ''up'' then max 0 (upVotes p - 1) else upVotes p)"
  "downVotes (removeVote prev p) =
     (if prev = Some ''down'' then max 0 (downVotes p - 1) else downVotes p)"
  by (simp_all add: removeVote_def Let_def)

lemma tallies_addVote:
  "upVotes (addVote d p) = (if d = ''up'' then upVotes p + 1 else upVotes p)"
  "downVotes (addVote d p) = (if d = ''down'' then downVotes p + 1 else downVotes p)"
  by (simp_all add: addVote_def Let_def)

lemma ledgerInv_initial: "ledgerInv v (initialState v r0)"
  by (simp add: ledgerInv_def initialState_def holders_def paddleOf_def split: side.splits)

lemma ledgerInv_playerJoin:
  assumes "ledgerInv v s" and "map_of (players s) k = None"
  shows "ledgerInv v (playerJoin v k s)"
proof -
  obtain pl where pl: "lastInput pl = None"
      "players (playerJoin v k s) = AList.update k pl (players s)"
    using playerJoin_players by blast
  have d: "distinct (map fst (players (playerJoin v k s)))"
    using assms(1) by (simp add: pl(2) ledgerInv_def distinct_update)
  have "holders v sd dir (players (playerJoin v k s)) = holders v sd dir (players s)" for sd dir
    using assms(2) pl by (simp add: holders_update_absent)
  then show ?thesis
    using assms(1) d by (simp add: ledgerInv_def playerJoin_paddleOf)
qed

lemma removeVote_nonneg:
  "0 \<le> upVotes p \<Longrightarrow> 0 \<le> upVotes (removeVote prev p)"
  "0 \<le> downVotes p \<Longrightarrow> 0 \<le> downVotes (removeVote prev p)"
  by (simp_all add: removeVote_def Let_def)

lemma revote_same:
  assumes "0 \<le> upVotes p" and "0 \<le> downVotes p" and "d = ''up'' \<or> d = ''down''"
  shows "addVote d (removeVote (Some d) (addVote d p)) = addVote d p"
  using assms by (auto simp add: addVote_def removeVote_def Let_def)

lemma addVote_malformed: "d \<noteq> ''up'' \<Longrightarrow> d \<noteq> ''down'' \<Longrightarrow> addVote d p = p"
  by (simp add: addVote_def)

lemma playerInput_recentInputs:
  assumes "map_of (players s) k = Some pl"
  shows "recentInputs (playerInput v k d t1 t2 s) =
           pushRecent v \<lparr> ri_number = number pl, ri_direction = d, ri_team = team pl,
                           ri_timestamp = t2 \<rparr> (recentInputs s)"
  using assms by (cases v) (simp_all add: playerInput_def Let_def onVotedPaddles_def)

lemma hd_pushRecent: "hd (pushRecent v e entries) = e"
  by (cases v; cases entries) (simp_all add: pushRecent_def Let_def maxRecentInputs_def)

subsection \<open>The ledger invariant is kept by every ledger call\<close>

lemma ledgerInv_playerInput:
  assumes "ledgerInv v s"
  shows "ledgerInv v (playerInput v k d t1 t2 s)"
proof (cases "map_of (players s) k")
  case None
  then show ?thesis using assms by (simp add: playerInput_def)
next
  case (Some pl)
  note eff = playerInput_present [OF Some]
  have d: "distinct (map fst (players (playerInput v k d t1 t2 s)))"
    using assms by (simp add: eff(2) ledgerInv_def distinct_update)
  have tally: "upVotes (paddleOf sd (playerInput v k d t1 t2 s))
                 = int (holders v sd ''up'' (players (playerInput v k d t1 t2 s))) \<and>
               downVotes (paddleOf sd (playerInput v k d t1 t2 s))
                 = int (holders v sd ''down'' (players (playerInput v k d t1 t2 s)))" for sd
  proof -
    have old: "upVotes (paddleOf sd s) = int (holders v sd ''up'' (players s))"
              "downVotes (paddleOf sd s) = int (holders v sd ''down'' (players s))"
      using assms by (simp_all add: ledgerInv_def)
    have pos: "lastInput pl = Some dir \<Longrightarrow> contributes v sd pl \<Longrightarrow>
                 0 < holders v sd dir (players s)" for dir
      using Some by (rule holders_present_pos)
    have up: "upVotes (paddleOf sd (playerInput v k d t1 t2 s))
                 = int (holders v sd ''up'' (players (playerInput v k d t1 t2 s)))"
      using pos [of "''up''"]
      by (simp add: eff holders_update_present [OF Some] tallies_addVote tallies_removeVote old)
    have down: "downVotes (paddleOf sd (playerInput v k d t1 t2 s))
                 = int (holders v sd ''down'' (players (playerInput v k d t1 t2 s)))"
      using pos [of "''down''"]
      by (simp add: eff holders_update_present [OF Some] tallies_addVote tallies_removeVote old)
    show ?thesis using up down by simp
  qed
  show ?thesis using d tally by (simp add: ledgerInv_def)
qed


lemma ledgerInv_playerRelease:
  assumes "ledgerInv v s"
  shows "ledgerInv v (playerRelease v k s)"
proof (cases "map_of (players s) k")
  case None
  then show ?thesis using assms by (simp add: playerRelease_idle)
next
  case (Some pl)
  show ?thesis
  proof (cases "lastInput pl = None \<or> lastInput pl = Some []")
    case True
    then show ?thesis using assms Some by (simp add: playerRelease_idle(2) [OF Some])
  next
    case False
    then have held: "lastInput pl \<noteq> None" "lastInput pl \<noteq> Some []" by simp_all
    note eff = playerRelease_present [OF Some held]
    have d: "distinct (map fst (players (playerRelease v k s)))"
      using assms by (simp add: eff(2) ledgerInv_def distinct_update)
    have tally: "upVotes (paddleOf sd (playerRelease v k s))
                   = int (holders v sd ''up'' (players (playerRelease v k s))) \<and>
                 downVotes (paddleOf sd (playerRelease v k s))
                   = int (holders v sd ''down'' (players (playerRelease v k s)))" for sd
    proof -
      have old: "upVotes (paddleOf sd s) = int (holders v sd ''up'' (players s))"
                "downVotes (paddleOf sd s) = int (holders v sd ''down'' (players s))"
        using assms by (simp_all add: ledgerInv_def)
      have pos: "lastInput pl = Some dir \<Longrightarrow> contributes v sd pl \<Longrightarrow>
                   0 < holders v sd dir (players s)" for dir
        using Some by (rule holders_present_pos)
      have up: "upVotes (paddleOf sd (playerRelease v k s))
                   = int (holders v sd ''up'' (players (playerRelease v k s)))"
        using pos [of "''up''"]
        by (simp add: eff holders_update_present [OF Some] tallies_removeVote old)
      have down: "downVotes (paddleOf sd (playerRelease v k s))
                   = int (holders v sd ''down'' (players (playerRelease v k s)))"
        using pos [of "''down''"]
        by (simp add: eff holders_update_present [OF Some] tallies_removeVote old)
      show ?thesis using up down by simp
    qed
    show ?thesis using d tally by (simp add: ledgerInv_def)
  qed
qed

lemma ledgerInv_disconnect:
  assumes "ledgerInv v s"
  shows "ledgerInv v (disconnect v k s)"
proof (cases "map_of (players s) k")
  case None
  then show ?thesis using assms by (simp add: disconnect_absent)
next
  case (Some pl)
  note eff = disconnect_present [OF Some]
  have dist: "distinct (map fst (players s))" using assms by (simp add: ledgerInv_def)
  have d: "distinct (map fst (players (disconnect v k s)))"
    using dist by (simp add: eff(2) distinct_delete)
  have tally: "upVotes (paddleOf sd (disconnect v k s))
                 = int (holders v sd ''up'' (players (disconnect v k s))) \<and>
               downVotes (paddleOf sd (disconnect v k s))
                 = int (holders v sd ''down'' (players (disconnect v k s)))" for sd
  proof -
    have old: "upVotes (paddleOf sd s) = int (holders v sd ''up'' (players s))"
              "downVotes (paddleOf sd s) = int (holders v sd ''down'' (players s))"
      using assms by (simp_all add: ledgerInv_def)
    have pos: "lastInput pl = Some dir \<Longrightarrow> contributes v sd pl \<Longrightarrow>
                 0 < holders v sd dir (players s)" for dir
      using Some by (rule holders_present_pos)
    have up: "upVotes (paddleOf sd (disconnect v k s))
                 = int (holders v sd ''up'' (players (disconnect v k s)))"
      using pos [of "''up''"]
      by (simp add: eff holders_delete_present [OF dist Some] tallies_removeVote old)
    have down: "downVotes (paddleOf sd (disconnect v k s))
                 = int (holders v sd ''down'' (players (disconnect v k s)))"
      using pos [of "''down''"]
      by (simp add: eff holders_delete_present [OF dist Some] tallies_removeVote old)
    show ?thesis using up down by simp
  qed
  show ?thesis using d tally by (simp add: ledgerInv_def)
qed

lemma ledgerInv_step:
  assumes "ledgerInv v s" and "ledgerCall s e"
  shows "ledgerInv v (step v s e)"
  using assms
  by (cases e)
     (simp_all add: ledgerInv_playerJoin ledgerInv_playerInput ledgerInv_playerRelease
        ledgerInv_disconnect)

lemma ledgerInv_run:
  "ledgerInv v s \<Longrightarrow> ledgerCalls v s evs \<Longrightarrow> ledgerInv v (run v s evs)"
  by (induction evs arbitrary: s) (simp_all add: ledgerInv_step)

subsection \<open>What the steps of a tick leave alone\<close>

lemma afterScore_keeps:
  "leftPaddle (afterScore v s) = leftPaddle s"
  "rightPaddle (afterScore v s) = rightPaddle s"
  "ball (afterScore v s) = ball s"
  "score (afterScore v s) = score s"
  "players (afterScore v s) = players s"
  by (cases v; simp add: afterScore_def Let_def)+

lemma scoreDetection_keeps:
  "leftPaddle (scoreDetection v s) = leftPaddle s"
  "rightPaddle (scoreDetection v s) = rightPaddle s"
  "ball (scoreDetection v s) = ball s"
  "players (scoreDetection v s) = players s"
  by (simp_all add: scoreDetection_def afterScore_keeps)

lemma collisions_keep:
  "leftPaddle (rightPaddleCollision s) = leftPaddle s"
  "rightPaddle (rightPaddleCollision s) = rightPaddle s"
  "ball_x (ball (rightPaddleCollision s)) = ball_x (ball s)"
  "score (rightPaddleCollision s) = score s"
  "status (rightPaddleCollision s) = status s"
  "pendingResets (rightPaddleCollision s) = pendingResets s"
  "leftPaddle (leftPaddleCollision s) = leftPaddle s"
  "rightPaddle (leftPaddleCollision s) = rightPaddle s"
  "ball_x (ball (leftPaddleCollision s)) = ball_x (ball s)"
  "score (leftPaddleCollision s) = score s"
  "status (leftPaddleCollision s) = status s"
  "pendingResets (leftPaddleCollision s) = pendingResets s"
  "leftPaddle (wallCollision s) = leftPaddle s"
  "rightPaddle (wallCollision s) = rightPaddle s"
  "ball_x (ball (wallCollision s)) = ball_x (ball s)"
  "score (wallCollision s) = score s"
  "status (wallCollision s) = status s"
  "pendingResets (wallCollision s) = pendingResets s"
  by (simp_all add: rightPaddleCollision_def leftPaddleCollision_def wallCollision_def)

lemma moveBall_keeps:
  "leftPaddle (moveBall s) = leftPaddle s"
  "rightPaddle (moveBall s) = rightPaddle s"
  "ball_x (ball (moveBall s)) = ball_x (ball s) + ball_vx (ball s)"
  "score (moveBall s) = score s"
  "status (moveBall s) = status s"
  "pendingResets (moveBall s) = pendingResets s"
  by (simp_all add: moveBall_def)

lemma clampPaddles_keeps:
  "leftPaddle (clampPaddles s) = clampPaddle (leftPaddle s)"
  "rightPaddle (clampPaddles s) = clampPaddle (rightPaddle s)"
  "ball (clampPaddles s) = ball s"
  "score (clampPaddles s) = score s"
  "status (clampPaddles s) = status s"
  "pendingResets (clampPaddles s) = pendingResets s"
  by (simp_all add: clampPaddles_def)

lemma movePaddles_keeps:
  "ball (movePaddles v s) = ball s"
  "score (movePaddles v s) = score s"
  "status (movePaddles v s) = status s"
  "pendingResets (movePaddles v s) = pendingResets s"
  by (cases v; simp add: movePaddles_def)+

lemma tick_playing: "status s = Playing \<Longrightarrow> tick v s = scoreDetection v (beforeScore v s)"
  by (simp add: tick_def beforeScore_def)

lemma tick_idle: "status s \<noteq> Playing \<Longrightarrow> tick v s = s"
  by (simp add: tick_def)

lemma beforeScore_keeps:
  "leftPaddle (beforeScore v s) = clampPaddle (leftPaddle (movePaddles v s))"
  "rightPaddle (beforeScore v s) = clampPaddle (rightPaddle (movePaddles v s))"
  "ball_x (ball (beforeScore v s)) = ball_x (ball s) + ball_vx (ball s)"
  "score (beforeScore v s) = score s"
  "status (beforeScore v s) = status s"
  "pendingResets (beforeScore v s) = pendingResets s"
  by (simp_all add: beforeScore_def collisions_keep moveBall_keeps clampPaddles_keeps
      movePaddles_keeps)

lemma tick_paddles:
  assumes "status s = Playing"
  shows "leftPaddle (tick v s) = clampPaddle (leftPaddle (movePaddles v s))"
    and "rightPaddle (tick v s) = clampPaddle (rightPaddle (movePaddles v s))"
    and "ball_x (ball (tick v s)) = ball_x (ball s) + ball_vx (ball s)"
  using assms by (simp_all add: tick_playing scoreDetection_keeps beforeScore_keeps)

lemma ease_in_range:
  assumes "0 \<le> y" and "y \<le> CANVAS_HEIGHT - PADDLE_HEIGHT"
  shows "0 \<le> y + (centerY - y) * 0.02" and "y + (centerY - y) * 0.02 \<le> CANVAS_HEIGHT - PADDLE_HEIGHT"
  using assms by (simp_all add: const_eval field_simps)

lemma PADDLE_SPEED_pos: "0 < PADDLE_SPEED v"
  by (cases v) (simp_all add: PADDLE_SPEED_def)

subsection \<open>Scores and pending resets\<close>

lemma scoreDetection_score:
  "ball_x (ball s) < 0 \<Longrightarrow>
     right (score (scoreDetection v s)) = right (score s) + 1 \<and>
     left (score (scoreDetection v s)) = left (score s)"
  "ball_x (ball s) > CANVAS_WIDTH \<Longrightarrow>
     left (score (scoreDetection v s)) = left (score s) + 1 \<and>
     right (score (scoreDetection v s)) = right (score s)"
  by (simp_all add: scoreDetection_def afterScore_keeps CANVAS_WIDTH_def)

lemma tick_scores:
  assumes "status s = Playing"
  shows "ball_x (ball (tick v s)) < 0 \<Longrightarrow>
           right (score (tick v s)) = right (score s) + 1 \<and> left (score (tick v s)) = left (score s)"
    and "ball_x (ball (tick v s)) > CANVAS_WIDTH \<Longrightarrow>
           left (score (tick v s)) = left (score s) + 1 \<and> right (score (tick v s)) = right (score s)"
proof -
  have x: "ball_x (ball (tick v s)) = ball_x (ball (beforeScore v s))"
    using assms by (simp add: tick_playing scoreDetection_keeps)
  have sc: "score (beforeScore v s) = score s" by (simp add: beforeScore_keeps)
  show "ball_x (ball (tick v s)) < 0 \<Longrightarrow>
           right (score (tick v s)) = right (score s) + 1 \<and> left (score (tick v s)) = left (score s)"
    using scoreDetection_score(1) [of "beforeScore v s" v] x sc assms by (simp add: tick_playing)
  show "ball_x (ball (tick v s)) > CANVAS_WIDTH \<Longrightarrow>
           left (score (tick v s)) = left (score s) + 1 \<and> right (score (tick v s)) = right (score s)"
    using scoreDetection_score(2) [of "beforeScore v s" v] x sc assms by (simp add: tick_playing)
qed

lemma score_every_tick_left:
  "(\<forall>i<n. status ((tick v ^^ i) s) = Playing \<and> ball_x (ball ((tick v ^^ Suc i) s)) < 0) \<Longrightarrow>
     right (score ((tick v ^^ n) s)) = right (score s) + int n \<and>
     left (score ((tick v ^^ n) s)) = left (score s)"
proof (induction n)
  case 0
  then show ?case by simp
next
  case (Suc n)
  have prev: "right (score ((tick v ^^ n) s)) = right (score s) + int n \<and>
              left (score ((tick v ^^ n) s)) = left (score s)"
    using Suc.IH Suc.prems by simp
  have "status ((tick v ^^ n) s) = Playing" and "ball_x (ball (tick v ((tick v ^^ n) s))) < 0"
    using Suc.prems by auto
  then have "right (score (tick v ((tick v ^^ n) s))) = right (score ((tick v ^^ n) s)) + 1 \<and>
             left (score (tick v ((tick v ^^ n) s))) = left (score ((tick v ^^ n) s))"
    by (rule tick_scores(1))
  then show ?case using prev by simp
qed

lemma score_every_tick_right:
  "(\<forall>i<n. status ((tick v ^^ i) s) = Playing \<and> ball_x (ball ((tick v ^^ Suc i) s)) > CANVAS_WIDTH) \<Longrightarrow>
     left (score ((tick v ^^ n) s)) = left (score s) + int n \<and>
     right (score ((tick v ^^ n) s)) = right (score s)"
proof (induction n)
  case 0
  then show ?case by simp
next
  case (Suc n)
  have prev: "left (score ((tick v ^^ n) s)) = left (score s) + int n \<and>
              right (score ((tick v ^^ n) s)) = right (score s)"
    using Suc.IH Suc.prems by simp
  have "status ((tick v ^^ n) s) = Playing"
    and "ball_x (ball (tick v ((tick v ^^ n) s))) > CANVAS_WIDTH"
    using Suc.prems by auto
  then have "left (score (tick v ((tick v ^^ n) s))) = left (score ((tick v ^^ n) s)) + 1 \<and>
             right (score (tick v ((tick v ^^ n) s))) = right (score ((tick v ^^ n) s))"
    by (rule tick_scores(2))
  then show ?case using prev by simp
qed


lemma afterScore_pending:
  "pendingResets (afterScore v s) =
     (if left (score s) \<ge> WINNING_SCORE \<or> right (score s) \<ge> WINNING_SCORE
      then pendingResets s else pendingResets s + 1)"
  "status (afterScore v s) =
     (if left (score s) \<ge> WINNING_SCORE \<or> right (score s) \<ge> WINNING_SCORE
      then Finished else status s)"
  by (cases v; simp add: afterScore_def Let_def)+

lemma scoreDetection_cases:
  "scoreDetection v s = s \<or>
   scoreDetection v s = afterScore v (s\<lparr> score := (score s)\<lparr> right := right (score s) + 1 \<rparr> \<rparr>) \<or>
   scoreDetection v s = afterScore v (s\<lparr> score := (score s)\<lparr> left := left (score s) + 1 \<rparr> \<rparr>)"
  by (simp add: scoreDetection_def)

lemma scoreDetection_pending:
  "pendingResets s \<le> pendingResets (scoreDetection v s)"
  "score (scoreDetection v s) \<noteq> score s \<Longrightarrow> status (scoreDetection v s) = status s \<Longrightarrow>
     status s \<noteq> Finished \<Longrightarrow> pendingResets (scoreDetection v s) = pendingResets s + 1"
  "score (scoreDetection v s) \<noteq> score s \<Longrightarrow>
     left (score (scoreDetection v s)) \<ge> WINNING_SCORE \<or>
     right (score (scoreDetection v s)) \<ge> WINNING_SCORE \<Longrightarrow>
     status (scoreDetection v s) = Finished"
proof -
  show "pendingResets s \<le> pendingResets (scoreDetection v s)"
    using scoreDetection_cases [of v s] by (auto simp add: afterScore_pending)
  show "pendingResets (scoreDetection v s) = pendingResets s + 1"
    if "score (scoreDetection v s) \<noteq> score s" "status (scoreDetection v s) = status s"
       "status s \<noteq> Finished"
    using scoreDetection_cases [of v s] that
    by (auto simp add: afterScore_pending afterScore_keeps split: if_splits)
  show "status (scoreDetection v s) = Finished"
    if "score (scoreDetection v s) \<noteq> score s"
       "left (score (scoreDetection v s)) \<ge> WINNING_SCORE \<or>
        right (score (scoreDetection v s)) \<ge> WINNING_SCORE"
    using scoreDetection_cases [of v s] that
    by (auto simp add: afterScore_pending afterScore_keeps split: if_splits)
qed

lemma tick_pending:
  "pendingResets s \<le> pendingResets (tick v s)"
  "status s = Playing \<Longrightarrow> score (tick v s) \<noteq> score s \<Longrightarrow> status (tick v s) = Playing \<Longrightarrow>
     pendingResets (tick v s) = pendingResets s + 1"
proof -
  show "pendingResets s \<le> pendingResets (tick v s)"
  proof (cases "status s = Playing")
    case True
    then show ?thesis
      using scoreDetection_pending(1) [of "beforeScore v s" v]
      by (simp add: tick_playing beforeScore_keeps)
  next
    case False
    then show ?thesis by (simp add: tick_idle)
  qed
  show "pendingResets (tick v s) = pendingResets s + 1"
    if "status s = Playing" "score (tick v s) \<noteq> score s" "status (tick v s) = Playing"
    using that scoreDetection_pending(2) [of v "beforeScore v s"]
    by (simp add: tick_playing beforeScore_keeps)
qed

lemma tick_finishes:
  assumes "status s = Playing" and "score (tick v s) \<noteq> score s"
    and "left (score (tick v s)) \<ge> WINNING_SCORE \<or> right (score (tick v s)) \<ge> WINNING_SCORE"
  shows "status (tick v s) = Finished"
  using assms scoreDetection_pending(3) [of v "beforeScore v s"]
  by (simp add: tick_playing beforeScore_keeps)

lemma resetBall_keeps:
  "pendingResets (resetBall dir r s) = pendingResets s"
  "status (resetBall dir r s) = status s"
  by (simp_all add: resetBall_def)

lemma resetRound_keeps:
  "pendingResets (resetRound r s) = pendingResets s"
  "status (resetRound r s) = status s"
  by (simp_all add: resetRound_def resetBall_keeps)

lemma resetGame_pending: "pendingResets (resetGame v r1 r2 r3 s) = pendingResets s"
  by (simp add: resetGame_def resetBall_keeps resetRound_keeps)

lemma onVotedPaddles_keeps:
  "pendingResets (onVotedPaddles v pl f s) = pendingResets s"
  "status (onVotedPaddles v pl f s) = status s"
  "ball (onVotedPaddles v pl f s) = ball s"
  "players (onVotedPaddles v pl f s) = players s"
  by (cases v; simp add: onVotedPaddles_def)+

lemma onVotedPaddles_paddle_y:
  assumes "\<And>p. paddle_y (f p) = paddle_y p"
  shows "paddle_y (leftPaddle (onVotedPaddles v pl f s)) = paddle_y (leftPaddle s)"
    and "paddle_y (rightPaddle (onVotedPaddles v pl f s)) = paddle_y (rightPaddle s)"
  using assms by (cases v; simp add: onVotedPaddles_def)+

lemma vote_paddle_y:
  "paddle_y (removeVote prev p) = paddle_y p"
  "paddle_y (addVote d p) = paddle_y p"
  by (simp_all add: removeVote_def addVote_def Let_def)

text \<open>What the socket handlers and the admin commands other than start and reset leave
  alone.\<close>

lemma ledger_handlers_keep:
  "pendingResets (playerJoin v k s) = pendingResets s"
  "status (playerJoin v k s) = status s"
  "ball (playerJoin v k s) = ball s"
  "paddle_y (leftPaddle (playerJoin v k s)) = paddle_y (leftPaddle s)"
  "paddle_y (rightPaddle (playerJoin v k s)) = paddle_y (rightPaddle s)"
  "pendingResets (playerInput v k d t1 t2 s) = pendingResets s"
  "status (playerInput v k d t1 t2 s) = status s"
  "ball (playerInput v k d t1 t2 s) = ball s"
  "paddle_y (leftPaddle (playerInput v k d t1 t2 s)) = paddle_y (leftPaddle s)"
  "paddle_y (rightPaddle (playerInput v k d t1 t2 s)) = paddle_y (rightPaddle s)"
  "pendingResets (playerRelease v k s) = pendingResets s"
  "status (playerRelease v k s) = status s"
  "ball (playerRelease v k s) = ball s"
  "paddle_y (leftPaddle (playerRelease v k s)) = paddle_y (leftPaddle s)"
  "paddle_y (rightPaddle (playerRelease v k s)) = paddle_y (rightPaddle s)"
  "pendingResets (disconnect v k s) = pendingResets s"
  "status (disconnect v k s) = status s"
  "ball (disconnect v k s) = ball s"
  "paddle_y (leftPaddle (disconnect v k s)) = paddle_y (leftPaddle s)"
  "paddle_y (rightPaddle (disconnect v k s)) = paddle_y (rightPaddle s)"
  "pendingResets (adminResetPlayers s) = pendingResets s"
  "status (adminResetPlayers s) = status s"
  "ball (adminResetPlayers s) = ball s"
  "paddle_y (leftPaddle (adminResetPlayers s)) = paddle_y (leftPaddle s)"
  "paddle_y (rightPaddle (adminResetPlayers s)) = paddle_y (rightPaddle s)"
  "pendingResets (adminPause s) = pendingResets s"
  "pendingResets (adminResume s) = pendingResets s"
  by (simp_all add: playerJoin_def playerInput_def playerRelease_def disconnect_def
      adminResetPlayers_def adminPause_def adminResume_def Let_def
      onVotedPaddles_keeps onVotedPaddles_paddle_y vote_paddle_y split: option.splits)

lemma step_pending_mono:
  "(\<forall>r. e \<noteq> TimerFire r) \<Longrightarrow> pendingResets s \<le> pendingResets (step v s e)"
  by (cases e)
     (simp_all add: tick_pending(1) ledger_handlers_keep adminStart_def adminReset_def
        resetGame_pending)

lemma frozenAt_step:
  assumes "frozenAt s s'" and "notStartOrReset e"
  shows "frozenAt s (step v s' e)"
  using assms
  by (cases e)
     (simp_all add: frozenAt_def tick_idle timerFire_def ledger_handlers_keep
        adminPause_def adminResume_def)

lemma frozenAt_run:
  "frozenAt s s' \<Longrightarrow> list_all notStartOrReset evs \<Longrightarrow> frozenAt s (run v s' evs)"
  by (induction evs arbitrary: s') (simp_all add: frozenAt_step)

subsection \<open>Invariants of the reachable states\<close>

lemma INITIAL_BALL_SPEED_pos: "0 < INITIAL_BALL_SPEED v"
  by (cases v) (simp_all add: INITIAL_BALL_SPEED_def)

lemma inRange_centre: "inRange \<lparr> paddle_y = centerY, upVotes = a, downVotes = b \<rparr>"
  by (simp add: inRange_def const_eval)

lemma inRange_clampPaddle: "inRange (clampPaddle p)"
  by (simp add: inRange_def clampPaddle_def const_eval)

lemma clampPaddle_votes:
  "upVotes (clampPaddle p) = upVotes p" "downVotes (clampPaddle p) = downVotes p"
  by (simp_all add: clampPaddle_def)

lemma movePaddles_votes:
  "upVotes (leftPaddle (movePaddles v s)) = upVotes (leftPaddle s)"
  "downVotes (leftPaddle (movePaddles v s)) = downVotes (leftPaddle s)"
  "upVotes (rightPaddle (movePaddles v s)) = upVotes (rightPaddle s)"
  "downVotes (rightPaddle (movePaddles v s)) = downVotes (rightPaddle s)"
  by (cases v; simp add: movePaddles_def)+

lemma beforeScore_speed:
  "ballSpeed (beforeScore v s) = ballSpeed s" "roundNo (beforeScore v s) = roundNo s"
proof -
  have m: "ballSpeed (movePaddles v s) = ballSpeed s" "roundNo (movePaddles v s) = roundNo s"
    by (cases v; simp add: movePaddles_def)+
  show "ballSpeed (beforeScore v s) = ballSpeed s" "roundNo (beforeScore v s) = roundNo s"
    by (simp_all add: beforeScore_def rightPaddleCollision_def leftPaddleCollision_def
        wallCollision_def moveBall_def clampPaddles_def m)
qed

lemma afterScore_speed:
  "1 \<le> roundNo s \<Longrightarrow> 0 < ballSpeed s \<Longrightarrow>
     1 \<le> roundNo (afterScore v s) \<and> 0 < ballSpeed (afterScore v s)"
  by (cases v) (simp_all add: afterScore_def Let_def INITIAL_BALL_SPEED_def SPEED_INCREMENT_def)

lemma scoreDetection_speed:
  "1 \<le> roundNo s \<Longrightarrow> 0 < ballSpeed s \<Longrightarrow>
     1 \<le> roundNo (scoreDetection v s) \<and> 0 < ballSpeed (scoreDetection v s)"
  using scoreDetection_cases [of v s]
    afterScore_speed [of "s\<lparr> score := (score s)\<lparr> right := right (score s) + 1 \<rparr> \<rparr>" v]
    afterScore_speed [of "s\<lparr> score := (score s)\<lparr> left := left (score s) + 1 \<rparr> \<rparr>" v]
  by auto

lemma stateInv_tick: "stateInv s \<Longrightarrow> stateInv (tick v s)"
proof (cases "status s = Playing")
  case False
  assume "stateInv s"
  then show ?thesis using False by (simp add: tick_idle)
next
  case True
  assume inv: "stateInv s"
  have sp: "1 \<le> roundNo (tick v s) \<and> 0 < ballSpeed (tick v s)"
    using inv scoreDetection_speed [of "beforeScore v s" v]
    by (simp add: tick_playing [OF True] beforeScore_speed stateInv_def)
  have t: "talliesNonneg (tick v s)"
    using inv
    by (simp add: stateInv_def talliesNonneg_def tick_paddles [OF True] clampPaddle_votes
        movePaddles_votes)
  have r: "inRange (leftPaddle (tick v s))" "inRange (rightPaddle (tick v s))"
    by (simp_all add: tick_paddles [OF True] inRange_clampPaddle)
  show ?thesis using sp t r by (simp add: stateInv_def)
qed

lemma stateInv_resetRound: "stateInv s \<Longrightarrow> stateInv (resetRound r s)"
  by (simp add: stateInv_def talliesNonneg_def resetRound_def resetBall_def inRange_centre)

lemma stateInv_resetGame: "stateInv s \<Longrightarrow> stateInv (resetGame v r1 r2 r3 s)"
  by (cases v)
     (simp_all add: stateInv_def talliesNonneg_def resetGame_def resetRound_def resetBall_def
        inRange_centre INITIAL_BALL_SPEED_pos)

lemma addVote_nonneg:
  "0 \<le> upVotes p \<Longrightarrow> 0 \<le> upVotes (addVote d p)"
  "0 \<le> downVotes p \<Longrightarrow> 0 \<le> downVotes (addVote d p)"
  by (simp_all add: addVote_def Let_def)

lemma onVotedPaddles_inv:
  assumes "stateInv s"
    and "\<And>p. paddle_y (f p) = paddle_y p"
    and "\<And>p. 0 \<le> upVotes p \<Longrightarrow> 0 \<le> upVotes (f p)"
    and "\<And>p. 0 \<le> downVotes p \<Longrightarrow> 0 \<le> downVotes (f p)"
  shows "stateInv (onVotedPaddles v pl f s)"
  using assms
  by (cases v) (simp_all add: onVotedPaddles_def stateInv_def talliesNonneg_def inRange_def)

lemma stateInv_players: "stateInv (s\<lparr> players := ps \<rparr>) = stateInv s"
  "stateInv (s\<lparr> recentInputs := ri \<rparr>) = stateInv s"
  "stateInv (s\<lparr> status := st \<rparr>) = stateInv s"
  "stateInv (s\<lparr> pendingResets := n \<rparr>) = stateInv s"
  "stateInv (s\<lparr> nextPlayerNumber := m \<rparr>) = stateInv s"
  by (simp_all add: stateInv_def talliesNonneg_def)

lemma stateInv_playerInput: "stateInv s \<Longrightarrow> stateInv (playerInput v k d t1 t2 s)"
  by (simp add: playerInput_def Let_def stateInv_players onVotedPaddles_inv vote_paddle_y
      addVote_nonneg removeVote_nonneg split: option.splits)

lemma stateInv_playerRelease: "stateInv s \<Longrightarrow> stateInv (playerRelease v k s)"
  by (simp add: playerRelease_def Let_def stateInv_players onVotedPaddles_inv vote_paddle_y
      removeVote_nonneg split: option.splits)

lemma stateInv_disconnect: "stateInv s \<Longrightarrow> stateInv (disconnect v k s)"
  by (simp add: disconnect_def Let_def stateInv_players onVotedPaddles_inv vote_paddle_y
      removeVote_nonneg split: option.splits)

lemma stateInv_step: "stateInv s \<Longrightarrow> stateInv (step v s e)"
  by (cases e)
     (simp_all add: stateInv_tick timerFire_def stateInv_resetRound stateInv_players
        playerJoin_def Let_def stateInv_playerInput stateInv_playerRelease stateInv_disconnect
        adminStart_def adminReset_def stateInv_resetGame adminPause_def adminResume_def,
      simp add: adminResetPlayers_def stateInv_def talliesNonneg_def inRange_def)

lemma stateInv_initial: "stateInv (initialState v r0)"
  by (simp add: stateInv_def talliesNonneg_def initialState_def inRange_centre
      INITIAL_BALL_SPEED_pos)

lemma stateInv_run': "stateInv s \<Longrightarrow> stateInv (run v s evs)"
  by (induction evs arbitrary: s) (simp_all add: stateInv_step)

lemma stateInv_run: "stateInv (run v (initialState v r0) evs)"
  using stateInv_initial by (rule stateInv_run')

subsection \<open>Easing and repeated inputs\<close>

lemma ease_decay: "centerY - (y + (centerY - y) * 0.02) = (centerY - y) * 0.98"
  by (simp add: field_simps)

lemma tick_paddleOf:
  "status s = Playing \<Longrightarrow> paddleOf sd (tick v s) = clampPaddle (paddleOf sd (movePaddles v s))"
  by (cases sd) (simp_all add: paddleOf_def tick_paddles)

lemma movePaddles_paddle_y:
  "paddle_y (paddleOf sd (movePaddles v s)) =
     (if movedFromVotes v sd s
      then paddle_y (paddleOf sd s) + calculatePaddleMovement v (paddleOf sd s)
      else paddle_y (paddleOf sd s) + (centerY - paddle_y (paddleOf sd s)) * 0.02)"
  by (cases v; cases sd) (simp_all add: movePaddles_def movedFromVotes_def paddleOf_def)

lemma paddle_y_clampPaddle:
  "paddle_y (clampPaddle p) = max 0 (min (CANVAS_HEIGHT - PADDLE_HEIGHT) (paddle_y p))"
  by (simp add: clampPaddle_def)

lemma clamp_eased:
  assumes "0 \<le> y" and "y \<le> CANVAS_HEIGHT - PADDLE_HEIGHT"
  shows "max 0 (min (CANVAS_HEIGHT - PADDLE_HEIGHT) (y + (centerY - y) * 0.02))
           = y + (centerY - y) * 0.02"
  using ease_in_range [OF assms] by simp

lemma ease_not_centre: "y \<noteq> centerY \<Longrightarrow> y + (centerY - y) * 0.02 \<noteq> centerY"
  by (simp add: field_simps)

lemma paddle_step:
  assumes "status s = Playing" and "inRange (paddleOf sd s)"
  shows "\<not> movedFromVotes v sd s \<Longrightarrow>
           paddle_y (paddleOf sd (tick v s))
             = paddle_y (paddleOf sd s) + (centerY - paddle_y (paddleOf sd s)) * 0.02"
    and "movedFromVotes v sd s \<Longrightarrow>
           paddle_y (paddleOf sd (tick v s))
             = max 0 (min (CANVAS_HEIGHT - PADDLE_HEIGHT)
                 (paddle_y (paddleOf sd s) + calculatePaddleMovement v (paddleOf sd s)))"
proof -
  have r: "0 \<le> paddle_y (paddleOf sd s)" "paddle_y (paddleOf sd s) \<le> CANVAS_HEIGHT - PADDLE_HEIGHT"
    using assms(2) by (simp_all add: inRange_def)
  show "paddle_y (paddleOf sd (tick v s))
             = paddle_y (paddleOf sd s) + (centerY - paddle_y (paddleOf sd s)) * 0.02"
    if "\<not> movedFromVotes v sd s"
    using that clamp_eased [OF r]
    by (simp add: tick_paddleOf [OF assms(1)] paddle_y_clampPaddle movePaddles_paddle_y)
  show "paddle_y (paddleOf sd (tick v s))
             = max 0 (min (CANVAS_HEIGHT - PADDLE_HEIGHT)
                 (paddle_y (paddleOf sd s) + calculatePaddleMovement v (paddleOf sd s)))"
    if "movedFromVotes v sd s"
    using that
    by (simp add: tick_paddleOf [OF assms(1)] paddle_y_clampPaddle movePaddles_paddle_y)
qed


lemma repeated_cast_same_paddles:
  assumes "talliesNonneg s" and "d = ''up'' \<or> d = ''down''"
  shows "paddleOf sd (playerInput v k d t3 t4 (playerInput v k d t1 t2 s))
           = paddleOf sd (playerInput v k d t1 t2 s)"
proof (cases "map_of (players s) k")
  case None
  then show ?thesis by (simp add: playerInput_def)
next
  case (Some pl)
  let ?s1 = "playerInput v k d t1 t2 s"
  let ?pl1 = "pl\<lparr> lastInput := Some d, inputTime := Some t1 \<rparr>"
  have present: "map_of (players ?s1) k = Some ?pl1"
    by (simp add: playerInput_present(2) [OF Some] update_conv')
  have nn: "0 \<le> upVotes (removeVote (lastInput pl) (paddleOf sd s))"
           "0 \<le> downVotes (removeVote (lastInput pl) (paddleOf sd s))"
    using assms(1) by (cases sd; simp add: talliesNonneg_def paddleOf_def removeVote_nonneg)+
  show ?thesis
    unfolding playerInput_present(1) [OF present]
    unfolding playerInput_present(1) [OF Some]
    using nn assms(2) by (simp add: revote_same)
qed

subsection \<open>The states of the example runs\<close>

lemma run_append: "run v s (es @ fs) = run v (run v s es) fs"
  by (induction es arbitrary: s) simp_all

lemma beforeGoal_state:
  "beforeGoal =
     \<lparr> status = Playing,
       ball = \<lparr> ball_x = 1195, ball_y = 572.5, ball_vx = 5, ball_vy = - 2.5 \<rparr>,
       leftPaddle = \<lparr> paddle_y = 240, upVotes = 0, downVotes = 0 \<rparr>,
       rightPaddle = \<lparr> paddle_y = 240, upVotes = 0, downVotes = 0 \<rparr>,
       score = \<lparr> left = 0, right = 0 \<rparr>,
       roundNo = 1,
       ballSpeed = 5,
       activePaddle = Right,
       players = [],
       nextPlayerNumber = 1,
       recentInputs = [],
       pendingResets = 0 \<rparr>"
  by (simp add: beforeGoal_def kickoff_def numeral_eq_Suc initialState_def tick_eval admin_eval
      const_eval)

lemma matchOver_state:
  "matchOver =
     \<lparr> status = Finished,
       ball = \<lparr> ball_x = 1200, ball_y = 300, ball_vx = 8, ball_vy = 0 \<rparr>,
       leftPaddle = \<lparr> paddle_y = 240, upVotes = 0, downVotes = 0 \<rparr>,
       rightPaddle = \<lparr> paddle_y = 0, upVotes = 1, downVotes = 0 \<rparr>,
       score = \<lparr> left = 7, right = 0 \<rparr>,
       roundNo = 8,
       ballSpeed = 8.5,
       activePaddle = Right,
       players = [(10, \<lparr> number = 1, team = Some Right, lastInput = Some ''up'',
                          inputTime = Some 1 \<rparr>)],
       nextPlayerNumber = 2,
       recentInputs = [\<lparr> ri_number = 1, ri_direction = ''up'', ri_team = Some Right,
                         ri_timestamp = 2 \<rparr>],
       pendingResets = 0 \<rparr>"
  by (simp add: matchOver_def fullMatch_def beforeGoal_state numeral_eq_Suc tick_eval admin_eval
      ledger_eval const_eval)

section \<open>The claims\<close>

subsection \<open>C1: the direction of the serve after a goal\<close>

text \<open>C1, as the specification states it: after a goal that does not end the match, the
  deferred round reset serves the ball toward the side that did not just score, the side
  behind in score, and toward the right when the scores are equal. The code does the
  opposite for unequal scores. Counterexample: after the kick-off the left side scores and
  leads 1:0, the match is not over and one reset is pending; the admin pauses, and when the
  reset fires the ball is served with \<open>ball_vx = - 5.5\<close>, to the left, toward the side
  that scored and leads.\<close>

theorem serve_away_from_leader_counterexample:
  "status (run FixedTeam beforeGoal [Tick]) = Playing \<and>
   score (run FixedTeam beforeGoal [Tick]) = \<lparr> left = 1, right = 0 \<rparr> \<and>
   score (run FixedTeam beforeGoal [Tick, AdminPause]) = \<lparr> left = 1, right = 0 \<rparr> \<and>
   pendingResets (run FixedTeam beforeGoal [Tick, AdminPause]) = 1 \<and>
   ball_vx (ball (run FixedTeam beforeGoal [Tick, AdminPause, TimerFire 0.5])) = - 5.5 \<and>
   \<not> 0 < ball_vx (ball (run FixedTeam beforeGoal [Tick, AdminPause, TimerFire 0.5]))"
  by (simp add: beforeGoal_state tick_eval admin_eval const_eval)

text \<open>C1, amended: in every reachable state with a round reset pending, the firing of the
  reset serves the ball with the current ball speed toward the side that leads (to the
  left when the left score is higher, to the right when the right score is higher) and to
  the right when the scores are equal.\<close>

theorem deferred_reset_serves_toward_leader:
  "0 < pendingResets (run v (initialState v r0) evs) \<longrightarrow>
     (left (score (run v (initialState v r0) evs)) > right (score (run v (initialState v r0) evs)) \<longrightarrow>
        ball_vx (ball (step v (run v (initialState v r0) evs) (TimerFire r)))
          = - ballSpeed (run v (initialState v r0) evs) \<and>
        ball_vx (ball (step v (run v (initialState v r0) evs) (TimerFire r))) < 0) \<and>
     (left (score (run v (initialState v r0) evs)) \<le> right (score (run v (initialState v r0) evs)) \<longrightarrow>
        ball_vx (ball (step v (run v (initialState v r0) evs) (TimerFire r)))
          = ballSpeed (run v (initialState v r0) evs) \<and>
        ball_vx (ball (step v (run v (initialState v r0) evs) (TimerFire r))) > 0)"
proof -
  have "0 < ballSpeed (run v (initialState v r0) evs)"
    using stateInv_run [of v r0 evs] by (simp add: stateInv_def)
  then show ?thesis
    by (simp add: timerFire_def resetRound_def resetBall_def lastScorer_def)
qed

theorem deferred_reset_serves_toward_leader_witness:
  "0 < pendingResets (run FixedTeam (initialState FixedTeam 0.75) (kickoff @ [Tick, AdminPause])) \<and>
   score (run FixedTeam (initialState FixedTeam 0.75) (kickoff @ [Tick, AdminPause]))
     = \<lparr> left = 1, right = 0 \<rparr> \<and>
   ballSpeed (run FixedTeam (initialState FixedTeam 0.75) (kickoff @ [Tick, AdminPause])) = 5.5 \<and>
   ball_vx (ball (step FixedTeam
                    (run FixedTeam (initialState FixedTeam 0.75) (kickoff @ [Tick, AdminPause]))
                    (TimerFire 0.5))) = - 5.5"
proof -
  let ?s = "run FixedTeam (initialState FixedTeam 0.75) (kickoff @ [Tick, AdminPause])"
  have s: "?s = run FixedTeam beforeGoal [Tick, AdminPause]"
    by (simp add: run_append beforeGoal_def)
  have h: "0 < pendingResets ?s" "score ?s = \<lparr> left = 1, right = 0 \<rparr>" "ballSpeed ?s = 5.5"
    unfolding s by (simp_all add: beforeGoal_state tick_eval admin_eval const_eval)
  show ?thesis
    using h deferred_reset_serves_toward_leader
      [of FixedTeam "0.75" "kickoff @ [Tick, AdminPause]" "0.5"]
    by simp
qed

subsection \<open>C2: pending round resets\<close>

text \<open>C2, as the specification states it: a second goal or an admin reset or start before
  a pending round reset fires cancels or replaces it, so that at most one is outstanding and
  none fires after an admin reset or start. The code keeps no handle on its timeouts and
  never clears one. Counterexample: after the kick-off two scoring ticks in a row leave two
  resets pending; a reset pending at an admin reset is still pending after it, and when it
  fires it turns the ball, served to the left by the admin reset, to the right; the six
  resets pending when the match ends at 7:0 survive the admin start of the next match and
  fire into it.\<close>

theorem single_pending_reset_counterexample:
  "status (run FixedTeam beforeGoal [Tick, Tick]) = Playing \<and>
   pendingResets (run FixedTeam beforeGoal [Tick, Tick]) = 2 \<and>
   pendingResets (run FixedTeam beforeGoal [Tick, AdminReset 0.5 0.25 0.5]) = 1 \<and>
   ball_vx (ball (run FixedTeam beforeGoal [Tick, AdminReset 0.5 0.25 0.5])) = - 5 \<and>
   ball_vx (ball (run FixedTeam beforeGoal [Tick, AdminReset 0.5 0.25 0.5, TimerFire 0.5])) = 5 \<and>
   status (run FixedTeam beforeGoal [Tick, Tick, Tick, Tick, Tick, Tick, Tick]) = Finished \<and>
   pendingResets (run FixedTeam beforeGoal
      [Tick, Tick, Tick, Tick, Tick, Tick, Tick, AdminStart 0.5 0.25 0.5]) = 6 \<and>
   ball_vx (ball (run FixedTeam beforeGoal
      [Tick, Tick, Tick, Tick, Tick, Tick, Tick, AdminStart 0.5 0.25 0.5])) = - 5 \<and>
   ball_vx (ball (run FixedTeam beforeGoal
      [Tick, Tick, Tick, Tick, Tick, Tick, Tick, AdminStart 0.5 0.25 0.5, TimerFire 0.5])) = 5"
  by (simp add: beforeGoal_state tick_eval admin_eval const_eval)

text \<open>C2, amended: pending round resets are never cancelled or replaced. An admin reset
  or start leaves their number as it is; a scoring tick that does not end the match adds
  one; no event but a firing lowers the number; a firing takes exactly one away and runs
  \<^verbatim>\<open>resetRound\<close> on the state of that moment.\<close>

theorem deferred_resets_accumulate:
  "pendingResets (step v s (AdminReset r1 r2 r3)) = pendingResets s \<and>
   pendingResets (step v s (AdminStart r1 r2 r3)) = pendingResets s \<and>
   (status s = Playing \<and> score (step v s Tick) \<noteq> score s \<and> status (step v s Tick) = Playing \<longrightarrow>
      pendingResets (step v s Tick) = pendingResets s + 1) \<and>
   ((\<forall>r. e \<noteq> TimerFire r) \<longrightarrow> pendingResets s \<le> pendingResets (step v s e)) \<and>
   (0 < pendingResets s \<longrightarrow>
      step v s (TimerFire r) = resetRound r (s\<lparr> pendingResets := pendingResets s - 1 \<rparr>) \<and>
      pendingResets (step v s (TimerFire r)) = pendingResets s - 1)"
proof -
  have a: "pendingResets (step v s (AdminReset r1 r2 r3)) = pendingResets s"
    by (simp add: adminReset_def resetGame_pending)
  have b: "pendingResets (step v s (AdminStart r1 r2 r3)) = pendingResets s"
    by (simp add: adminStart_def resetGame_pending)
  have c: "status s = Playing \<and> score (step v s Tick) \<noteq> score s \<and> status (step v s Tick) = Playing \<longrightarrow>
      pendingResets (step v s Tick) = pendingResets s + 1"
    by (simp add: tick_pending(2))
  have d: "(\<forall>r. e \<noteq> TimerFire r) \<longrightarrow> pendingResets s \<le> pendingResets (step v s e)"
    using step_pending_mono [of e s v] by blast
  have e: "0 < pendingResets s \<longrightarrow>
      step v s (TimerFire r) = resetRound r (s\<lparr> pendingResets := pendingResets s - 1 \<rparr>) \<and>
      pendingResets (step v s (TimerFire r)) = pendingResets s - 1"
    by (simp add: timerFire_def resetRound_keeps)
  show ?thesis using a b c d e by blast
qed

theorem deferred_resets_accumulate_witness:
  "status (run FixedTeam beforeGoal [Tick]) = Playing \<and>
   score (run FixedTeam beforeGoal [Tick]) = \<lparr> left = 1, right = 0 \<rparr> \<and>
   score (step FixedTeam (run FixedTeam beforeGoal [Tick]) Tick) = \<lparr> left = 2, right = 0 \<rparr> \<and>
   status (step FixedTeam (run FixedTeam beforeGoal [Tick]) Tick) = Playing \<and>
   pendingResets (run FixedTeam beforeGoal [Tick]) = 1 \<and>
   pendingResets (step FixedTeam (run FixedTeam beforeGoal [Tick]) Tick)
     = pendingResets (run FixedTeam beforeGoal [Tick]) + 1 \<and>
   pendingResets (step FixedTeam (run FixedTeam beforeGoal [Tick]) (AdminReset 0.5 0.25 0.5)) = 1"
proof -
  let ?s = "run FixedTeam beforeGoal [Tick]"
  have s1: "?s = beforeGoal\<lparr> ball := \<lparr> ball_x = 1200, ball_y = 570, ball_vx = 5, ball_vy = - 2.5 \<rparr>,
               score := \<lparr> left = 1, right = 0 \<rparr>,
               roundNo := 2, ballSpeed := 5.5, pendingResets := 1 \<rparr>"
    by (simp add: beforeGoal_state tick_eval const_eval)
  have h: "status ?s = Playing" "score ?s = \<lparr> left = 1, right = 0 \<rparr>" "pendingResets ?s = 1"
    unfolding s1 by (simp_all add: beforeGoal_state)
  have h2: "score (step FixedTeam ?s Tick) = \<lparr> left = 2, right = 0 \<rparr>"
    "status (step FixedTeam ?s Tick) = Playing"
    unfolding s1 by (simp_all add: beforeGoal_state tick_eval const_eval)
  show ?thesis
    using h h2 deferred_resets_accumulate [of FixedTeam ?s "0.5" "0.25" "0.5" Tick "0.5"]
    by simp
qed

subsection \<open>C3: inputs with a direction other than up and down\<close>

text \<open>C3, as the specification states it: an input whose direction is neither up nor down,
  from a player who is present, changes nothing (recorded direction, tallies, recent-input
  log). The handler does not check the direction. Counterexample: socket 10 holds up and
  sends \<^verbatim>\<open>'left'\<close>; its recorded direction becomes \<^verbatim>\<open>'left'\<close>, the up tally of its
  paddle falls from 1 to 0 and the log grows from one entry to two.\<close>

theorem malformed_input_ignored_counterexample:
  "map_of (players holdingUp) 10
     = Some \<lparr> number = 1, team = Some Right, lastInput = Some ''up'', inputTime = Some 1 \<rparr> \<and>
   ''left'' \<noteq> ''up'' \<and> ''left'' \<noteq> ''down'' \<and>
   map_of (players (playerInput FixedTeam 10 ''left'' 3 4 holdingUp)) 10
     = Some \<lparr> number = 1, team = Some Right, lastInput = Some ''left'', inputTime = Some 3 \<rparr> \<and>
   upVotes (rightPaddle holdingUp) = 1 \<and>
   upVotes (rightPaddle (playerInput FixedTeam 10 ''left'' 3 4 holdingUp)) = 0 \<and>
   length (recentInputs holdingUp) = 1 \<and>
   length (recentInputs (playerInput FixedTeam 10 ''left'' 3 4 holdingUp)) = 2"
  by (simp add: holdingUp_def onePlayer_def ledger_eval)

text \<open>C3, amended: an input whose direction is neither up nor down, from a player who is
  present, adds no vote to any tally, but is not ignored: the vote the player held is taken
  back from the paddles the player votes for, the value sent becomes the recorded
  direction, and the input is put at the head of the recent-input log.\<close>

theorem malformed_input_retracts_and_is_logged:
  assumes "map_of (players s) k = Some pl" and "d \<noteq> ''up''" and "d \<noteq> ''down''"
  shows "paddleOf sd (playerInput v k d t1 t2 s) =
           (if contributes v sd pl then removeVote (lastInput pl) (paddleOf sd s)
            else paddleOf sd s) \<and>
         map_of (players (playerInput v k d t1 t2 s)) k =
           Some (pl\<lparr> lastInput := Some d, inputTime := Some t1 \<rparr>) \<and>
         hd (recentInputs (playerInput v k d t1 t2 s)) =
           \<lparr> ri_number = number pl, ri_direction = d, ri_team = team pl, ri_timestamp = t2 \<rparr>"
  using assms
  by (simp add: playerInput_present [OF assms(1)] addVote_malformed update_conv'
      playerInput_recentInputs hd_pushRecent)

theorem malformed_input_retracts_and_is_logged_witness:
  "map_of (players holdingUp) 10
     = Some \<lparr> number = 1, team = Some Right, lastInput = Some ''up'', inputTime = Some 1 \<rparr> \<and>
   ''left'' \<noteq> ''up'' \<and> ''left'' \<noteq> ''down'' \<and>
   paddleOf Right (playerInput FixedTeam 10 ''left'' 3 4 holdingUp)
     = \<lparr> paddle_y = 240, upVotes = 0, downVotes = 0 \<rparr> \<and>
   paddleOf Right holdingUp = \<lparr> paddle_y = 240, upVotes = 1, downVotes = 0 \<rparr> \<and>
   hd (recentInputs (playerInput FixedTeam 10 ''left'' 3 4 holdingUp))
     = \<lparr> ri_number = 1, ri_direction = ''left'', ri_team = Some Right, ri_timestamp = 4 \<rparr>"
proof -
  have h: "map_of (players holdingUp) 10
     = Some \<lparr> number = 1, team = Some Right, lastInput = Some ''up'', inputTime = Some 1 \<rparr>"
    by (simp add: holdingUp_def onePlayer_def ledger_eval)
  have d: "''left'' \<noteq> ''up''" "''left'' \<noteq> ''down''" by simp_all
  have p: "paddleOf Right holdingUp = \<lparr> paddle_y = 240, upVotes = 1, downVotes = 0 \<rparr>"
    by (simp add: holdingUp_def onePlayer_def ledger_eval centerY_def CANVAS_HEIGHT_def
        PADDLE_HEIGHT_def)
  show ?thesis
    using h d p malformed_input_retracts_and_is_logged [OF h d, of Right FixedTeam 3 4]
    by (simp add: contributes_def removeVote_def)
qed

subsection \<open>C4: tallies count the present voters\<close>

text \<open>C4: after any sequence of joins (of sockets that are not present), inputs with
  direction up or down, releases and disconnects, starting from the initial state, the sum
  of the up and down tallies of each paddle is the number of present players who hold up or
  down and whose vote goes to that paddle, and neither tally is negative.\<close>

theorem tallies_count_present_voters:
  assumes "ledgerCalls v (initialState v r0) evs"
  shows "upVotes (paddleOf sd (run v (initialState v r0) evs))
           + downVotes (paddleOf sd (run v (initialState v r0) evs))
           = int (voters v sd (players (run v (initialState v r0) evs))) \<and>
         0 \<le> upVotes (paddleOf sd (run v (initialState v r0) evs)) \<and>
         0 \<le> downVotes (paddleOf sd (run v (initialState v r0) evs))"
proof -
  have "ledgerInv v (run v (initialState v r0) evs)"
    using ledgerInv_initial assms by (rule ledgerInv_run)
  then show ?thesis by (simp add: ledgerInv_def voters_holders)
qed

theorem tallies_count_present_voters_witness:
  "ledgerCalls FixedTeam (initialState FixedTeam 0.75) ledgerRun \<and>
   upVotes (paddleOf Right (run FixedTeam (initialState FixedTeam 0.75) ledgerRun))
     + downVotes (paddleOf Right (run FixedTeam (initialState FixedTeam 0.75) ledgerRun))
     = int (voters FixedTeam Right (players (run FixedTeam (initialState FixedTeam 0.75) ledgerRun))) \<and>
   voters FixedTeam Right (players (run FixedTeam (initialState FixedTeam 0.75) ledgerRun)) = 1"
proof -
  have h: "ledgerCalls FixedTeam (initialState FixedTeam 0.75) ledgerRun"
    by (simp add: ledgerRun_def ledger_eval)
  have n: "voters FixedTeam Right (players (run FixedTeam (initialState FixedTeam 0.75) ledgerRun)) = 1"
    by (simp add: ledgerRun_def ledger_eval)
  show ?thesis
    using h n tallies_count_present_voters [OF h, of Right] by simp
qed

subsection \<open>C5: a repeated input is not counted twice\<close>

text \<open>C5: in every reachable state, a second input of the same direction (up or down) by
  the same socket leaves both paddles, and so all four tallies, as the first input left
  them.\<close>

theorem repeated_cast_not_double_counted:
  assumes "d = ''up'' \<or> d = ''down''"
  shows "leftPaddle (playerInput v k d t3 t4 (playerInput v k d t1 t2 (run v (initialState v r0) evs)))
           = leftPaddle (playerInput v k d t1 t2 (run v (initialState v r0) evs)) \<and>
         rightPaddle (playerInput v k d t3 t4 (playerInput v k d t1 t2 (run v (initialState v r0) evs)))
           = rightPaddle (playerInput v k d t1 t2 (run v (initialState v r0) evs))"
proof -
  have "talliesNonneg (run v (initialState v r0) evs)"
    using stateInv_run [of v r0 evs] by (simp add: stateInv_def)
  then show ?thesis
    using repeated_cast_same_paddles [OF _ assms, of _ Left v k t3 t4 t1 t2]
      repeated_cast_same_paddles [OF _ assms, of _ Right v k t3 t4 t1 t2]
    by (simp add: paddleOf_def)
qed

theorem repeated_cast_not_double_counted_witness:
  "rightPaddle (playerInput FixedTeam 10 ''up'' 3 4 (playerInput FixedTeam 10 ''up'' 1 2
       (run FixedTeam (initialState FixedTeam 0.75) [PlayerJoin 10])))
     = rightPaddle (playerInput FixedTeam 10 ''up'' 1 2
       (run FixedTeam (initialState FixedTeam 0.75) [PlayerJoin 10])) \<and>
   upVotes (rightPaddle (playerInput FixedTeam 10 ''up'' 1 2
       (run FixedTeam (initialState FixedTeam 0.75) [PlayerJoin 10]))) = 1 \<and>
   map_of (players (run FixedTeam (initialState FixedTeam 0.75) [PlayerJoin 10])) 10
     = Some \<lparr> number = 1, team = Some Right, lastInput = None, inputTime = None \<rparr>"
proof -
  have d: "''up'' = ''up'' \<or> ''up'' = ''down''" by simp
  have u: "upVotes (rightPaddle (playerInput FixedTeam 10 ''up'' 1 2
       (run FixedTeam (initialState FixedTeam 0.75) [PlayerJoin 10]))) = 1"
    "map_of (players (run FixedTeam (initialState FixedTeam 0.75) [PlayerJoin 10])) 10
     = Some \<lparr> number = 1, team = Some Right, lastInput = None, inputTime = None \<rparr>"
    by (simp_all add: ledger_eval)
  show ?thesis
    using u repeated_cast_not_double_counted [OF d, of FixedTeam 10 3 4 1 2 "0.75" "[PlayerJoin 10]"]
    by simp
qed

subsection \<open>C6: the displacement computed from the votes\<close>

text \<open>C6: for tallies that are not negative, the displacement computed from the votes is
  zero when both tallies are zero and when they are equal; otherwise, with
  \<open>u = upVotes / (upVotes + downVotes)\<close> and \<open>d = downVotes / (upVotes + downVotes)\<close>,
  one of the two is larger, the displacement is \<open>PADDLE_SPEED * (max u d - 0.5) * 2\<close> in
  size, negative when \<open>u > d\<close> and positive when \<open>d > u\<close>; one up vote against none
  gives \<open>- PADDLE_SPEED\<close>.\<close>

theorem calculatePaddleMovement_formula:
  assumes "0 \<le> upVotes p" and "0 \<le> downVotes p"
  shows "(upVotes p = 0 \<and> downVotes p = 0 \<longrightarrow> calculatePaddleMovement v p = 0) \<and>
         (upVotes p = downVotes p \<longrightarrow> calculatePaddleMovement v p = 0) \<and>
         (upVotes p \<noteq> downVotes p \<longrightarrow>
            (let u = real_of_int (upVotes p) / real_of_int (upVotes p + downVotes p);
                 d = real_of_int (downVotes p) / real_of_int (upVotes p + downVotes p)
             in (u > d \<or> d > u) \<and>
                (u > d \<longrightarrow> calculatePaddleMovement v p = - (PADDLE_SPEED v * (max u d - 0.5) * 2)
                         \<and> calculatePaddleMovement v p < 0) \<and>
                (d > u \<longrightarrow> calculatePaddleMovement v p = PADDLE_SPEED v * (max u d - 0.5) * 2
                         \<and> calculatePaddleMovement v p > 0))) \<and>
         (upVotes p = 1 \<and> downVotes p = 0 \<longrightarrow> calculatePaddleMovement v p = - PADDLE_SPEED v)"
proof -
  define a where "a = upVotes p"
  define b where "b = downVotes p"
  have ab: "0 \<le> a" "0 \<le> b" using assms by (simp_all add: a_def b_def)
  have c1: "a = 0 \<and> b = 0 \<longrightarrow> calculatePaddleMovement v p = 0"
    by (simp add: calculatePaddleMovement_def a_def b_def)
  have c2: "a = b \<longrightarrow> calculatePaddleMovement v p = 0"
    by (simp add: calculatePaddleMovement_def a_def b_def Let_def)
  have c4: "a = 1 \<and> b = 0 \<longrightarrow> calculatePaddleMovement v p = - PADDLE_SPEED v"
    by (simp add: calculatePaddleMovement_def a_def b_def Let_def)
  have c3: "(let u = real_of_int a / real_of_int (a + b);
                 d = real_of_int b / real_of_int (a + b)
             in (u > d \<or> d > u) \<and>
                (u > d \<longrightarrow> calculatePaddleMovement v p = - (PADDLE_SPEED v * (max u d - 0.5) * 2)
                         \<and> calculatePaddleMovement v p < 0) \<and>
                (d > u \<longrightarrow> calculatePaddleMovement v p = PADDLE_SPEED v * (max u d - 0.5) * 2
                         \<and> calculatePaddleMovement v p > 0))" if ne: "a \<noteq> b"
  proof -
    have tot: "0 < a + b" using ab ne by linarith
    define u where "u = real_of_int a / real_of_int (a + b)"
    define d where "d = real_of_int b / real_of_int (a + b)"
    have sum1: "u + d = 1" using tot by (simp add: u_def d_def add_divide_distrib [symmetric])
    have cmp: "u > d \<longleftrightarrow> a > b" using tot by (simp add: u_def d_def divide_less_cancel)
    have cmp2: "d > u \<longleftrightarrow> b > a" using tot by (simp add: u_def d_def divide_less_cancel)
    have calc: "calculatePaddleMovement v p =
        (if u > d then - PADDLE_SPEED v * (u - 0.5) * 2
         else if d > u then PADDLE_SPEED v * (d - 0.5) * 2 else 0)"
      using tot by (simp add: calculatePaddleMovement_def Let_def u_def d_def a_def b_def)
    have dich: "u > d \<or> d > u" using ne cmp cmp2 by linarith
    have up: "calculatePaddleMovement v p = - (PADDLE_SPEED v * (max u d - 0.5) * 2)
                \<and> calculatePaddleMovement v p < 0" if "u > d"
    proof -
      have "u > 0.5" using that sum1 by linarith
      then have "0 < PADDLE_SPEED v * (u - 0.5) * 2" using PADDLE_SPEED_pos [of v] by simp
      then show ?thesis using that calc by (simp add: max_def)
    qed
    have down: "calculatePaddleMovement v p = PADDLE_SPEED v * (max u d - 0.5) * 2
                \<and> calculatePaddleMovement v p > 0" if "d > u"
    proof -
      have "d > 0.5" using that sum1 by linarith
      then have "0 < PADDLE_SPEED v * (d - 0.5) * 2" using PADDLE_SPEED_pos [of v] by simp
      then show ?thesis using that calc by (simp add: max_def)
    qed
    show ?thesis using dich up down unfolding Let_def u_def d_def by blast
  qed
  show ?thesis using c1 c2 c3 c4 unfolding a_def b_def by blast
qed

theorem calculatePaddleMovement_formula_witness:
  "(0::int) \<le> upVotes \<lparr> paddle_y = 240, upVotes = 3, downVotes = 1 \<rparr> \<and>
   (0::int) \<le> downVotes \<lparr> paddle_y = 240, upVotes = 3, downVotes = 1 \<rparr> \<and>
   calculatePaddleMovement FixedTeam \<lparr> paddle_y = 240, upVotes = 3, downVotes = 1 \<rparr> = - 4 \<and>
   calculatePaddleMovement FixedTeam \<lparr> paddle_y = 240, upVotes = 3, downVotes = 1 \<rparr>
     = - (PADDLE_SPEED FixedTeam * (max (3 / 4) (1 / 4) - 0.5) * 2)"
  using calculatePaddleMovement_formula
    [of "\<lparr> paddle_y = 240, upVotes = 3, downVotes = 1 \<rparr>" FixedTeam]
  by (simp add: PADDLE_SPEED_def Let_def)

subsection \<open>C7: easing toward the centre\<close>

text \<open>C7: in every reachable state in play, of either variant, a paddle that the tick does
  not move from its votes (\<open>movedFromVotes\<close> is false: the inactive paddle of the
  ball-tracking game; the fixed-team game has no such paddle) eases toward the vertical
  centre by exactly 2% of its remaining distance, whatever its votes are: 98% of the
  distance remains, and a paddle off centre is never put on the centre. A paddle that the
  tick does move from its votes moves by the displacement computed from them, clamped to
  the canvas, and does not ease. Positions are real numbers here.\<close>

theorem paddle_not_moved_from_votes_eases:
  "status (run v (initialState v r0) evs) = Playing \<longrightarrow>
     (\<not> movedFromVotes v sd (run v (initialState v r0) evs) \<longrightarrow>
        paddle_y (paddleOf sd (tick v (run v (initialState v r0) evs)))
          = paddle_y (paddleOf sd (run v (initialState v r0) evs))
            + (centerY - paddle_y (paddleOf sd (run v (initialState v r0) evs))) * 0.02 \<and>
        centerY - paddle_y (paddleOf sd (tick v (run v (initialState v r0) evs)))
          = (centerY - paddle_y (paddleOf sd (run v (initialState v r0) evs))) * 0.98 \<and>
        (paddle_y (paddleOf sd (run v (initialState v r0) evs)) \<noteq> centerY \<longrightarrow>
           paddle_y (paddleOf sd (tick v (run v (initialState v r0) evs))) \<noteq> centerY)) \<and>
     (movedFromVotes v sd (run v (initialState v r0) evs) \<longrightarrow>
        paddle_y (paddleOf sd (tick v (run v (initialState v r0) evs)))
          = max 0 (min (CANVAS_HEIGHT - PADDLE_HEIGHT)
              (paddle_y (paddleOf sd (run v (initialState v r0) evs))
               + calculatePaddleMovement v (paddleOf sd (run v (initialState v r0) evs)))))"
proof -
  let ?s = "run v (initialState v r0) evs"
  have rng: "inRange (paddleOf sd ?s)"
    using stateInv_run [of v r0 evs] by (cases sd) (simp_all add: stateInv_def paddleOf_def)
  have e: "paddle_y (paddleOf sd (tick v ?s))
             = paddle_y (paddleOf sd ?s) + (centerY - paddle_y (paddleOf sd ?s)) * 0.02 \<and>
           centerY - paddle_y (paddleOf sd (tick v ?s))
             = (centerY - paddle_y (paddleOf sd ?s)) * 0.98 \<and>
           (paddle_y (paddleOf sd ?s) \<noteq> centerY \<longrightarrow> paddle_y (paddleOf sd (tick v ?s)) \<noteq> centerY)"
    if "status ?s = Playing" "\<not> movedFromVotes v sd ?s"
    unfolding paddle_step(1) [OF that(1) rng that(2)]
    using ease_decay [of "paddle_y (paddleOf sd ?s)"] ease_not_centre [of "paddle_y (paddleOf sd ?s)"]
    by blast
  have m: "paddle_y (paddleOf sd (tick v ?s))
             = max 0 (min (CANVAS_HEIGHT - PADDLE_HEIGHT)
                 (paddle_y (paddleOf sd ?s) + calculatePaddleMovement v (paddleOf sd ?s)))"
    if "status ?s = Playing" "movedFromVotes v sd ?s"
    using paddle_step(2) [OF that(1) rng that(2)] .
  show ?thesis using e m by blast
qed

theorem paddle_not_moved_from_votes_eases_witness:
  "status (run BallTracking (initialState BallTracking 0.75) easingRun) = Playing \<and>
   ball_x (ball (run BallTracking (initialState BallTracking 0.75) easingRun)) = 597 \<and>
   \<not> movedFromVotes BallTracking Right (run BallTracking (initialState BallTracking 0.75) easingRun) \<and>
   paddleOf Right (run BallTracking (initialState BallTracking 0.75) easingRun)
     = \<lparr> paddle_y = 234, upVotes = 1, downVotes = 0 \<rparr> \<and>
   paddle_y (paddleOf Right (tick BallTracking
       (run BallTracking (initialState BallTracking 0.75) easingRun))) = 234.12 \<and>
   movedFromVotes BallTracking Left (run BallTracking (initialState BallTracking 0.75) easingRun) \<and>
   paddleOf Left (run BallTracking (initialState BallTracking 0.75) easingRun)
     = \<lparr> paddle_y = 240, upVotes = 1, downVotes = 0 \<rparr> \<and>
   paddle_y (paddleOf Left (tick BallTracking
       (run BallTracking (initialState BallTracking 0.75) easingRun))) = 234 \<and>
   status (run FixedTeam (initialState FixedTeam 0.75) idleRun) = Playing \<and>
   movedFromVotes FixedTeam Right (run FixedTeam (initialState FixedTeam 0.75) idleRun) \<and>
   paddleOf Right (run FixedTeam (initialState FixedTeam 0.75) idleRun)
     = \<lparr> paddle_y = 232, upVotes = 0, downVotes = 0 \<rparr> \<and>
   paddle_y (paddleOf Right (tick FixedTeam
       (run FixedTeam (initialState FixedTeam 0.75) idleRun))) = 232"
proof -
  let ?s = "run BallTracking (initialState BallTracking 0.75) easingRun"
  let ?f = "run FixedTeam (initialState FixedTeam 0.75) idleRun"
  have h: "status ?s = Playing" "ball_x (ball ?s) = 597"
    "paddleOf Right ?s = \<lparr> paddle_y = 234, upVotes = 1, downVotes = 0 \<rparr>"
    "paddleOf Left ?s = \<lparr> paddle_y = 240, upVotes = 1, downVotes = 0 \<rparr>"
    by (simp_all add: easingRun_def initialState_def tick_eval admin_eval ledger_eval const_eval)
  have a: "\<not> movedFromVotes BallTracking Right ?s" "movedFromVotes BallTracking Left ?s"
    using h(2) by (simp_all add: movedFromVotes_def CANVAS_WIDTH_def)
  have g: "status ?f = Playing" "movedFromVotes FixedTeam Right ?f"
    "paddleOf Right ?f = \<lparr> paddle_y = 232, upVotes = 0, downVotes = 0 \<rparr>"
    by (simp_all add: idleRun_def movedFromVotes_def initialState_def tick_eval admin_eval
        ledger_eval const_eval)
  have c: "(234 :: real) + (centerY - 234) * 0.02 = 234.12"
    "max 0 (min (CANVAS_HEIGHT - PADDLE_HEIGHT)
       (240 + calculatePaddleMovement BallTracking \<lparr> paddle_y = 240, upVotes = 1, downVotes = 0 \<rparr>))
     = 234"
    "max 0 (min (CANVAS_HEIGHT - PADDLE_HEIGHT)
       (232 + calculatePaddleMovement FixedTeam \<lparr> paddle_y = 232, upVotes = 0, downVotes = 0 \<rparr>))
     = 232"
    by (simp_all add: calculatePaddleMovement_def const_eval)
  show ?thesis
    using h a g c
      paddle_not_moved_from_votes_eases [of BallTracking "0.75" easingRun Right]
      paddle_not_moved_from_votes_eases [of BallTracking "0.75" easingRun Left]
      paddle_not_moved_from_votes_eases [of FixedTeam "0.75" idleRun Right]
    by simp
qed

subsection \<open>C8: the end of the match\<close>

text \<open>C8, as the specification states it: once a goal brings a score to 7 the match is
  finished, and on every later tick, until an admin start or reset, ball and paddles are
  where they were at the end. A round reset still pending from an earlier goal fires
  nevertheless. Counterexample: after the kick-off seven ticks in a row score; the match is
  finished at 7:0 with the ball at \<open>x = 1230\<close>; after one more tick, the firing of the
  first pending reset and another tick, the status is still finished and the ball is at
  \<open>x = 600\<close>.\<close>

theorem finished_match_frozen_counterexample:
  "status (run FixedTeam beforeGoal [Tick, Tick, Tick, Tick, Tick, Tick, Tick]) = Finished \<and>
   left (score (run FixedTeam beforeGoal [Tick, Tick, Tick, Tick, Tick, Tick, Tick])) = 7 \<and>
   ball_x (ball (run FixedTeam beforeGoal [Tick, Tick, Tick, Tick, Tick, Tick, Tick])) = 1230 \<and>
   status (run FixedTeam beforeGoal
      [Tick, Tick, Tick, Tick, Tick, Tick, Tick, Tick, TimerFire 0.5, Tick]) = Finished \<and>
   ball_x (ball (run FixedTeam beforeGoal
      [Tick, Tick, Tick, Tick, Tick, Tick, Tick, Tick, TimerFire 0.5, Tick])) = 600"
  by (simp add: beforeGoal_state tick_eval admin_eval const_eval)

text \<open>C8, amended: a scoring tick that brings a score to 7 or more sets the status to
  finished; a tick in finished status changes nothing; and when no round reset is pending
  at that point, the status stays finished and the ball (position and velocity) and both
  paddle positions stay as they are through every sequence of events without an admin
  start or reset.\<close>

theorem finished_match_is_frozen:
  "(status s = Playing \<and> score (tick v s) \<noteq> score s \<and>
      (left (score (tick v s)) \<ge> WINNING_SCORE \<or> right (score (tick v s)) \<ge> WINNING_SCORE) \<longrightarrow>
      status (tick v s) = Finished) \<and>
   (status s = Finished \<longrightarrow> tick v s = s) \<and>
   (status s = Finished \<and> pendingResets s = 0 \<and> list_all notStartOrReset evs \<longrightarrow>
      status (run v s evs) = Finished \<and>
      ball (run v s evs) = ball s \<and>
      paddle_y (leftPaddle (run v s evs)) = paddle_y (leftPaddle s) \<and>
      paddle_y (rightPaddle (run v s evs)) = paddle_y (rightPaddle s))"
proof -
  have a: "status s = Playing \<and> score (tick v s) \<noteq> score s \<and>
      (left (score (tick v s)) \<ge> WINNING_SCORE \<or> right (score (tick v s)) \<ge> WINNING_SCORE) \<longrightarrow>
      status (tick v s) = Finished"
    using tick_finishes [of s v] by blast
  have b: "status s = Finished \<longrightarrow> tick v s = s"
    by (simp add: tick_idle)
  have c: "status (run v s evs) = Finished \<and>
      ball (run v s evs) = ball s \<and>
      paddle_y (leftPaddle (run v s evs)) = paddle_y (leftPaddle s) \<and>
      paddle_y (rightPaddle (run v s evs)) = paddle_y (rightPaddle s)"
    if "status s = Finished" "pendingResets s = 0" "list_all notStartOrReset evs"
  proof -
    have "frozenAt s s" using that(1,2) by (simp add: frozenAt_def)
    then have "frozenAt s (run v s evs)" using that(3) by (rule frozenAt_run)
    then show ?thesis by (simp add: frozenAt_def)
  qed
  show ?thesis using a b c by blast
qed

theorem finished_match_is_frozen_witness:
  "status matchOver = Finished \<and>
   pendingResets matchOver = 0 \<and>
   score matchOver = \<lparr> left = 7, right = 0 \<rparr> \<and>
   list_all notStartOrReset afterFinish \<and>
   status (run FixedTeam matchOver afterFinish) = Finished \<and>
   ball (run FixedTeam matchOver afterFinish)
     = \<lparr> ball_x = 1200, ball_y = 300, ball_vx = 8, ball_vy = 0 \<rparr> \<and>
   paddle_y (leftPaddle (run FixedTeam matchOver afterFinish)) = 240 \<and>
   paddle_y (rightPaddle (run FixedTeam matchOver afterFinish)) = 0"
proof -
  have h: "status matchOver = Finished" "pendingResets matchOver = 0"
    "score matchOver = \<lparr> left = 7, right = 0 \<rparr>"
    "ball matchOver = \<lparr> ball_x = 1200, ball_y = 300, ball_vx = 8, ball_vy = 0 \<rparr>"
    "paddle_y (leftPaddle matchOver) = 240" "paddle_y (rightPaddle matchOver) = 0"
    by (simp_all add: matchOver_state)
  have l: "list_all notStartOrReset afterFinish" by (simp add: afterFinish_def)
  show ?thesis
    using h l finished_match_is_frozen [of matchOver FixedTeam afterFinish] by simp
qed

subsection \<open>C9: one crossing, many goals\<close>

text \<open>C9: as long as the match is in play and the ball is left of 0 after each tick, every
  tick adds one to the right score and leaves the left score alone (likewise right of the
  canvas width for the left score); and one crossing is enough to end the match: after the
  kick-off, at 0:0 with the ball five pixels inside the right edge, the next seven ticks
  give the ball positions 1200, ..., 1230, the left scores 1, ..., 7, one more pending
  reset for each goal but the last, and the status finished.\<close>

theorem one_crossing_scores_every_tick:
  "((\<forall>i<n. status ((tick v ^^ i) s) = Playing \<and> ball_x (ball ((tick v ^^ Suc i) s)) < 0) \<longrightarrow>
      right (score ((tick v ^^ n) s)) = right (score s) + int n \<and>
      left (score ((tick v ^^ n) s)) = left (score s)) \<and>
   ((\<forall>i<n. status ((tick v ^^ i) s) = Playing \<and>
            ball_x (ball ((tick v ^^ Suc i) s)) > CANVAS_WIDTH) \<longrightarrow>
      left (score ((tick v ^^ n) s)) = left (score s) + int n \<and>
      right (score ((tick v ^^ n) s)) = right (score s)) \<and>
   status beforeGoal = Playing \<and> score beforeGoal = \<lparr> left = 0, right = 0 \<rparr> \<and>
   ball_x (ball beforeGoal) = 1195 \<and> ball_vx (ball beforeGoal) = 5 \<and>
   map (\<lambda>k. (ball_x (ball ((tick FixedTeam ^^ k) beforeGoal)),
              left (score ((tick FixedTeam ^^ k) beforeGoal)),
              status ((tick FixedTeam ^^ k) beforeGoal),
              pendingResets ((tick FixedTeam ^^ k) beforeGoal))) [1, 2, 3, 4, 5, 6, 7]
     = [(1200, 1, Playing, 1), (1205, 2, Playing, 2), (1210, 3, Playing, 3),
        (1215, 4, Playing, 4), (1220, 5, Playing, 5), (1225, 6, Playing, 6),
        (1230, 7, Finished, 6)]"
proof -
  have a: "(\<forall>i<n. status ((tick v ^^ i) s) = Playing \<and> ball_x (ball ((tick v ^^ Suc i) s)) < 0) \<longrightarrow>
      right (score ((tick v ^^ n) s)) = right (score s) + int n \<and>
      left (score ((tick v ^^ n) s)) = left (score s)"
    using score_every_tick_left [of n v s] by blast
  have b: "(\<forall>i<n. status ((tick v ^^ i) s) = Playing \<and>
            ball_x (ball ((tick v ^^ Suc i) s)) > CANVAS_WIDTH) \<longrightarrow>
      left (score ((tick v ^^ n) s)) = left (score s) + int n \<and>
      right (score ((tick v ^^ n) s)) = right (score s)"
    using score_every_tick_right [of n v s] by blast
  have c: "status beforeGoal = Playing \<and> score beforeGoal = \<lparr> left = 0, right = 0 \<rparr> \<and>
           ball_x (ball beforeGoal) = 1195 \<and> ball_vx (ball beforeGoal) = 5"
    by (simp add: beforeGoal_state)
  have d: "map (\<lambda>k. (ball_x (ball ((tick FixedTeam ^^ k) beforeGoal)),
              left (score ((tick FixedTeam ^^ k) beforeGoal)),
              status ((tick FixedTeam ^^ k) beforeGoal),
              pendingResets ((tick FixedTeam ^^ k) beforeGoal))) [1, 2, 3, 4, 5, 6, 7]
     = [(1200, 1, Playing, 1), (1205, 2, Playing, 2), (1210, 3, Playing, 3),
        (1215, 4, Playing, 4), (1220, 5, Playing, 5), (1225, 6, Playing, 6),
        (1230, 7, Finished, 6)]"
    by (simp add: numeral_eq_Suc beforeGoal_state tick_eval const_eval)
  show ?thesis using a b c d by blast
qed

theorem one_crossing_scores_every_tick_witness:
  "left (score (tick FixedTeam beforeGoal)) = 1 \<and>
   ball_x (ball (tick FixedTeam beforeGoal)) = 1200 \<and>
   left (score ((tick FixedTeam ^^ 6) (tick FixedTeam beforeGoal)))
     = left (score (tick FixedTeam beforeGoal)) + 6 \<and>
   status ((tick FixedTeam ^^ 6) (tick FixedTeam beforeGoal)) = Finished"
proof -
  let ?s = "tick FixedTeam beforeGoal"
  have s1: "?s = beforeGoal\<lparr> ball := \<lparr> ball_x = 1200, ball_y = 570, ball_vx = 5, ball_vy = - 2.5 \<rparr>,
               score := \<lparr> left = 1, right = 0 \<rparr>,
               roundNo := 2, ballSpeed := 5.5, pendingResets := 1 \<rparr>"
    by (simp add: beforeGoal_state tick_eval const_eval)
  have h: "\<forall>i<6. status ((tick FixedTeam ^^ i) ?s) = Playing \<and>
                  ball_x (ball ((tick FixedTeam ^^ Suc i) ?s)) > CANVAS_WIDTH"
    unfolding s1
    by (simp add: numeral_eq_Suc All_less_Suc beforeGoal_state tick_eval const_eval)
  have f: "status ((tick FixedTeam ^^ 6) ?s) = Finished"
    unfolding s1 by (simp add: numeral_eq_Suc beforeGoal_state tick_eval const_eval)
  have g: "left (score ?s) = 1" "ball_x (ball ?s) = 1200"
    unfolding s1 by (simp_all add: beforeGoal_state)
  show ?thesis
    using h f g one_crossing_scores_every_tick [of 6 FixedTeam ?s] by simp
qed

subsection \<open>C10: round resets and held votes\<close>

text \<open>C10: the round reset sets all four tallies to zero and leaves the player map, and
  so every held direction, as it is. In the fixed-team game socket 10 holds up for the
  right paddle when the pending reset fires, then socket 12 votes up: the up tally is 1 for
  two holders; when socket 10 then releases, or changes to down, the up tally of the right
  paddle is 0 while one present player, socket 12, holds up for it.\<close>

theorem round_reset_breaks_tally_invariant:
  "(\<forall>r s. upVotes (leftPaddle (resetRound r s)) = 0 \<and> downVotes (leftPaddle (resetRound r s)) = 0 \<and>
          upVotes (rightPaddle (resetRound r s)) = 0 \<and> downVotes (rightPaddle (resetRound r s)) = 0 \<and>
          players (resetRound r s) = players s) \<and>
   upVotes (rightPaddle (run FixedTeam beforeGoal staleVoteRun)) = 1 \<and>
   holders FixedTeam Right ''up'' (players (run FixedTeam beforeGoal staleVoteRun)) = 2 \<and>
   upVotes (rightPaddle (run FixedTeam beforeGoal (staleVoteRun @ [PlayerRelease 10]))) = 0 \<and>
   holders FixedTeam Right ''up''
     (players (run FixedTeam beforeGoal (staleVoteRun @ [PlayerRelease 10]))) = 1 \<and>
   upVotes (rightPaddle (run FixedTeam beforeGoal (staleVoteRun @ [PlayerInput 10 ''down'' 5 6]))) = 0 \<and>
   holders FixedTeam Right ''up''
     (players (run FixedTeam beforeGoal (staleVoteRun @ [PlayerInput 10 ''down'' 5 6]))) = 1"
proof -
  have g: "\<forall>r s. upVotes (leftPaddle (resetRound r s)) = 0 \<and> downVotes (leftPaddle (resetRound r s)) = 0 \<and>
          upVotes (rightPaddle (resetRound r s)) = 0 \<and> downVotes (rightPaddle (resetRound r s)) = 0 \<and>
          players (resetRound r s) = players s"
    by (simp add: resetRound_def resetBall_def)
  have c: "upVotes (rightPaddle (run FixedTeam beforeGoal staleVoteRun)) = 1 \<and>
   holders FixedTeam Right ''up'' (players (run FixedTeam beforeGoal staleVoteRun)) = 2 \<and>
   upVotes (rightPaddle (run FixedTeam beforeGoal (staleVoteRun @ [PlayerRelease 10]))) = 0 \<and>
   holders FixedTeam Right ''up''
     (players (run FixedTeam beforeGoal (staleVoteRun @ [PlayerRelease 10]))) = 1 \<and>
   upVotes (rightPaddle (run FixedTeam beforeGoal (staleVoteRun @ [PlayerInput 10 ''down'' 5 6]))) = 0 \<and>
   holders FixedTeam Right ''up''
     (players (run FixedTeam beforeGoal (staleVoteRun @ [PlayerInput 10 ''down'' 5 6]))) = 1"
    by (simp add: staleVoteRun_def beforeGoal_state tick_eval admin_eval ledger_eval const_eval)
  show ?thesis using g c by blast
qed

end
